theory Spec2Isabelle
  imports Main "HOL-Library.Word"
begin

unbundle bit_operations_syntax

section \<open>Machine types\<close>

text \<open>
  A channel is one 8-bit sample (\<^verbatim>\<open>uint8_t\<close>); C++ promotes it to \<^verbatim>\<open>int\<close>
  (32 bits, two's complement) before any arithmetic.  \<^verbatim>\<open>Luminosity8\<close> wraps
  one \<^verbatim>\<open>uint8_t\<close>; \<^verbatim>\<open>GetLuminosity()\<close> is the identity on it.
\<close>

type_synonym uint8_t = "8 word"
type_synonym int_t = "32 word"
type_synonym Luminosity8 = uint8_t

section \<open>The format descriptor (\<^verbatim>\<open>PixelTraits\<close>)\<close>

text \<open>
  Every class of \<^verbatim>\<open>PixelOperations.hpp\<close> is a template over a \<^verbatim>\<open>PixelTraits\<close>
  type that is declared elsewhere.  It is a parameter here: a record of the static
  members the engine calls.  \<open>'p\<close> is the pointer type, \<open>'c\<close> the colour type,
  \<open>'ch\<close> the channel type, \<open>'i\<close> the packed integer type and \<open>'st\<close> the state
  of the machine the pointers point into.  Reading returns the colour together
  with the state, writing returns the new state.
\<close>

record ('p, 'c, 'ch, 'i, 'st) PixelTraits =
  Next :: "'p \<Rightarrow> nat \<Rightarrow> 'p"
  ReadPixel :: "'p \<Rightarrow> 'st \<Rightarrow> 'c \<times> 'st"
  WritePixel :: "'p \<Rightarrow> 'c \<Rightarrow> 'st \<Rightarrow> 'st"
  ForHorizontal :: "'p \<Rightarrow> nat \<Rightarrow> ('p \<Rightarrow> 'st \<Rightarrow> 'st) \<Rightarrow> 'st \<Rightarrow> 'st"
  TransformChannels :: "'c \<Rightarrow> ('ch \<Rightarrow> 'ch) \<Rightarrow> 'c"
  TransformChannels2 :: "'c \<Rightarrow> 'c \<Rightarrow> ('ch \<Rightarrow> 'ch \<Rightarrow> 'ch) \<Rightarrow> 'c"
  TransformInteger :: "'c \<Rightarrow> ('i \<Rightarrow> 'i) \<Rightarrow> 'c"
  TransformInteger2 :: "'c \<Rightarrow> 'c \<Rightarrow> ('i \<Rightarrow> 'i \<Rightarrow> 'i) \<Rightarrow> 'c"
  IsBlack :: "'c \<Rightarrow> bool"

subsection \<open>A framebuffer for the descriptor to address\<close>

text \<open>
  Modelled from the spec: the descriptor's memory primitives (\<^verbatim>\<open>Next\<close>,
  \<^verbatim>\<open>ReadPixel\<close>, \<^verbatim>\<open>WritePixel\<close>, \<^verbatim>\<open>ForHorizontal\<close>) are not part of the sources.
  Section 4.1 of the specification describes them: pixel read and write at a
  location, pointer-style arithmetic advancing by n pixels, and a bounded iteration
  that invokes a supplied function exactly n times, once per pixel address, in
  increasing address order.  A location is the index of a pixel in a linear
  memory; source and destination rows live in the same memory, so overlapping
  rows alias.  The memory is unbounded: the descriptor never validates bounds,
  staying inside the buffer is the caller's obligation.  The \<open>trace\<close> lists
  every access in the order it happened, so that "no read and no write" and
  "exactly n writes" are statements about the state.
\<close>

datatype access = ReadAt nat | WriteAt nat

record 'c framebuffer =
  pixels :: "nat \<Rightarrow> 'c"
  trace :: "access list"

definition framebuffer_Next :: "nat \<Rightarrow> nat \<Rightarrow> nat" where
  "framebuffer_Next p i = p + i"

definition framebuffer_ReadPixel :: "nat \<Rightarrow> 'c framebuffer \<Rightarrow> 'c \<times> 'c framebuffer" where
  "framebuffer_ReadPixel p s = (pixels s p, s\<lparr>trace := trace s @ [ReadAt p]\<rparr>)"

definition framebuffer_WritePixel :: "nat \<Rightarrow> 'c \<Rightarrow> 'c framebuffer \<Rightarrow> 'c framebuffer" where
  "framebuffer_WritePixel p c s =
     s\<lparr>pixels := (pixels s)(p := c), trace := trace s @ [WriteAt p]\<rparr>"

definition framebuffer_ForHorizontal ::
  "nat \<Rightarrow> nat \<Rightarrow> (nat \<Rightarrow> 'c framebuffer \<Rightarrow> 'c framebuffer) \<Rightarrow> 'c framebuffer \<Rightarrow> 'c framebuffer" where
  "framebuffer_ForHorizontal p n f s = fold (\<lambda>i. f (framebuffer_Next p i)) [0..<n] s"

text \<open>A descriptor addresses the framebuffer when its memory primitives are these.\<close>

definition on_framebuffer :: "(nat, 'c, 'ch, 'i, 'c framebuffer) PixelTraits \<Rightarrow> bool" where
  "on_framebuffer PT \<longleftrightarrow>
     Next PT = framebuffer_Next \<and> ReadPixel PT = framebuffer_ReadPixel \<and>
     WritePixel PT = framebuffer_WritePixel \<and> ForHorizontal PT = framebuffer_ForHorizontal"

text \<open>
  Modelled from the spec: the source descriptor of a copy may have a colour type
  of its own.  It reads a location of the same memory and sees the pixel held
  there through its own reading \<open>view\<close> of it; the read is recorded like any
  other.  With the identity as \<open>view\<close> this is \<open>framebuffer_ReadPixel\<close>.  A copy
  uses only \<^verbatim>\<open>Next\<close> and \<^verbatim>\<open>ReadPixel\<close> of its source descriptor.
\<close>

definition framebuffer_ReadPixel_as ::
  "('c \<Rightarrow> 'sc) \<Rightarrow> nat \<Rightarrow> 'c framebuffer \<Rightarrow> 'sc \<times> 'c framebuffer" where
  "framebuffer_ReadPixel_as view p s = (view (pixels s p), s\<lparr>trace := trace s @ [ReadAt p]\<rparr>)"

definition source_on_framebuffer ::
  "('c \<Rightarrow> 'sc) \<Rightarrow> (nat, 'sc, 'sch, 'si, 'c framebuffer) PixelTraits \<Rightarrow> bool" where
  "source_on_framebuffer view SPT \<longleftrightarrow>
     Next SPT = framebuffer_Next \<and> ReadPixel SPT = framebuffer_ReadPixel_as view"

text \<open>
  Modelled from the spec: the greyscale format of the specification's scenario A,
  one 8-bit luminosity sample per pixel.  The single channel is the whole pixel and
  also its packed integer, so both transforms apply the scalar function to the
  sample; a pixel is "black" when its luminosity is 0.
\<close>

definition GreyscalePixelTraits ::
  "(nat, Luminosity8, uint8_t, uint8_t, Luminosity8 framebuffer) PixelTraits" where
  "GreyscalePixelTraits =
     \<lparr>Next = framebuffer_Next,
      ReadPixel = framebuffer_ReadPixel,
      WritePixel = framebuffer_WritePixel,
      ForHorizontal = framebuffer_ForHorizontal,
      TransformChannels = (\<lambda>c f. f c),
      TransformChannels2 = (\<lambda>a b f. f a b),
      TransformInteger = (\<lambda>c f. f c),
      TransformInteger2 = (\<lambda>a b f. f a b),
      IsBlack = (\<lambda>c. c = 0)\<rparr>"

section \<open>The engine: \<^verbatim>\<open>PerPixelOperations\<close>\<close>

text \<open>
  \<^verbatim>\<open>PerPixelOperations<PixelTraits, WritePixelOperation, SPT>\<close> inherits
  \<^verbatim>\<open>WritePixel\<close> from its write strategy; the strategy is the argument \<open>W\<close>.
  The counters \<^verbatim>\<open>n\<close> and \<^verbatim>\<open>i\<close> are \<^verbatim>\<open>unsigned\<close>; \<^verbatim>\<open>i\<close> stays below \<^verbatim>\<open>n\<close>, so
  nothing wraps and both are natural numbers.
\<close>

definition PerPixelOperations_WritePixel ::
  "('p \<Rightarrow> 'sc \<Rightarrow> 'st \<Rightarrow> 'st) \<Rightarrow> 'p \<Rightarrow> 'sc \<Rightarrow> 'st \<Rightarrow> 'st" where
  "PerPixelOperations_WritePixel W p c = W p c"

definition FillPixels ::
  "('p, 'c, 'ch, 'i, 'st) PixelTraits \<Rightarrow> ('p \<Rightarrow> 'sc \<Rightarrow> 'st \<Rightarrow> 'st) \<Rightarrow>
   'p \<Rightarrow> nat \<Rightarrow> 'sc \<Rightarrow> 'st \<Rightarrow> 'st" where
  "FillPixels PT W p n c =
     ForHorizontal PT p n (\<lambda>q. PerPixelOperations_WritePixel W q c)"

text \<open>
  The \<^verbatim>\<open>for\<close> loop of \<^verbatim>\<open>CopyPixels\<close>, entered at counter \<open>i\<close>.  The argument
  \<^verbatim>\<open>SPT::ReadPixel(SPT::Next(src, i))\<close> is evaluated before \<^verbatim>\<open>WritePixel\<close> runs.
\<close>

function CopyPixels_from ::
  "('p, 'c, 'ch, 'i, 'st) PixelTraits \<Rightarrow> ('sp, 'sc, 'sch, 'si, 'st) PixelTraits \<Rightarrow>
   ('p \<Rightarrow> 'sc \<Rightarrow> 'st \<Rightarrow> 'st) \<Rightarrow> 'p \<Rightarrow> 'sp \<Rightarrow> nat \<Rightarrow> nat \<Rightarrow> 'st \<Rightarrow> 'st" where
  "CopyPixels_from PT SPT W p src n i s =
     (if i < n then
        (case ReadPixel SPT (Next SPT src i) s of
           (c, s1) \<Rightarrow>
             CopyPixels_from PT SPT W p src n (Suc i)
               (PerPixelOperations_WritePixel W (Next PT p i) c s1))
      else s)"
  by pat_completeness auto
termination
  by (relation "measure (\<lambda>(PT, SPT, W, p, src, n, i, s). n - i)") auto

declare CopyPixels_from.simps [simp del]

definition CopyPixels ::
  "('p, 'c, 'ch, 'i, 'st) PixelTraits \<Rightarrow> ('sp, 'sc, 'sch, 'si, 'st) PixelTraits \<Rightarrow>
   ('p \<Rightarrow> 'sc \<Rightarrow> 'st \<Rightarrow> 'st) \<Rightarrow> 'p \<Rightarrow> 'sp \<Rightarrow> nat \<Rightarrow> 'st \<Rightarrow> 'st" where
  "CopyPixels PT SPT W p src n s = CopyPixels_from PT SPT W p src n 0 s"

section \<open>Write strategies\<close>

definition UnaryWritePixel_WritePixel ::
  "('p, 'c, 'ch, 'i, 'st) PixelTraits \<Rightarrow> ('sc \<Rightarrow> 'c) \<Rightarrow> 'p \<Rightarrow> 'sc \<Rightarrow> 'st \<Rightarrow> 'st" where
  "UnaryWritePixel_WritePixel PT Operation p c s = WritePixel PT p (Operation c) s"

definition BinaryWritePixel_WritePixel ::
  "('p, 'c, 'ch, 'i, 'st) PixelTraits \<Rightarrow> ('c \<Rightarrow> 'sc \<Rightarrow> 'c) \<Rightarrow> 'p \<Rightarrow> 'sc \<Rightarrow> 'st \<Rightarrow> 'st" where
  "BinaryWritePixel_WritePixel PT Operation p c s =
     (case ReadPixel PT p s of (d, s1) \<Rightarrow> WritePixel PT p (Operation d c) s1)"

definition ConditionalWritePixel_WritePixel ::
  "('p, 'c, 'ch, 'i, 'st) PixelTraits \<Rightarrow> ('c \<Rightarrow> bool) \<Rightarrow> 'p \<Rightarrow> 'c \<Rightarrow> 'st \<Rightarrow> 'st" where
  "ConditionalWritePixel_WritePixel PT Check p c s =
     (if Check c then WritePixel PT p c s else s)"

section \<open>Scalar adapters\<close>

definition PixelPerChannelAdapter ::
  "('p, 'c, 'ch, 'i, 'st) PixelTraits \<Rightarrow> ('ch \<Rightarrow> 'ch) \<Rightarrow> 'c \<Rightarrow> 'c" where
  "PixelPerChannelAdapter PT Operation x = TransformChannels PT x (\<lambda>x. Operation x)"

definition PixelPerChannelAdapter2 ::
  "('p, 'c, 'ch, 'i, 'st) PixelTraits \<Rightarrow> ('ch \<Rightarrow> 'ch \<Rightarrow> 'ch) \<Rightarrow> 'c \<Rightarrow> 'c \<Rightarrow> 'c" where
  "PixelPerChannelAdapter2 PT Operation a b =
     TransformChannels2 PT a b (\<lambda>a b. Operation a b)"

definition PixelIntegerAdapter ::
  "('p, 'c, 'ch, 'i, 'st) PixelTraits \<Rightarrow> ('i \<Rightarrow> 'i) \<Rightarrow> 'c \<Rightarrow> 'c" where
  "PixelIntegerAdapter PT Operation x = TransformInteger PT x (\<lambda>x. Operation x)"

definition PixelIntegerAdapter2 ::
  "('p, 'c, 'ch, 'i, 'st) PixelTraits \<Rightarrow> ('i \<Rightarrow> 'i \<Rightarrow> 'i) \<Rightarrow> 'c \<Rightarrow> 'c \<Rightarrow> 'c" where
  "PixelIntegerAdapter2 PT Operation a b =
     TransformInteger2 PT a b (\<lambda>a b. Operation a b)"

section \<open>Operation catalogue\<close>

subsection \<open>Bitwise operations on the packed integer\<close>

text \<open>
  \<^verbatim>\<open>~x\<close> on an \<^verbatim>\<open>integer_type\<close> narrower than \<^verbatim>\<open>int\<close> is computed on the promoted
  value and truncated again by the return; on the bits of \<^verbatim>\<open>integer_type\<close> that is
  the complement.
\<close>

definition PixelBitNot :: "'a::len word \<Rightarrow> 'a word" where
  "PixelBitNot x = NOT x"

definition PixelBitNotOr :: "'a::len word \<Rightarrow> 'a word \<Rightarrow> 'a word" where
  "PixelBitNotOr a b = a OR NOT b"

definition BitNotPixelOperations ::
  "('p, 'c, 'ch, 'a::len word, 'st) PixelTraits \<Rightarrow> 'p \<Rightarrow> 'c \<Rightarrow> 'st \<Rightarrow> 'st" where
  "BitNotPixelOperations PT =
     UnaryWritePixel_WritePixel PT (PixelIntegerAdapter PT PixelBitNot)"

definition BitOrPixelOperations ::
  "('p, 'c, 'ch, 'a::len word, 'st) PixelTraits \<Rightarrow> 'p \<Rightarrow> 'c \<Rightarrow> 'st \<Rightarrow> 'st" where
  "BitOrPixelOperations PT =
     BinaryWritePixel_WritePixel PT (PixelIntegerAdapter2 PT (\<lambda>a b. a OR b))"

definition BitNotOrPixelOperations ::
  "('p, 'c, 'ch, 'a::len word, 'st) PixelTraits \<Rightarrow> 'p \<Rightarrow> 'c \<Rightarrow> 'st \<Rightarrow> 'st" where
  "BitNotOrPixelOperations PT =
     BinaryWritePixel_WritePixel PT (PixelIntegerAdapter2 PT PixelBitNotOr)"

definition BitAndPixelOperations ::
  "('p, 'c, 'ch, 'a::len word, 'st) PixelTraits \<Rightarrow> 'p \<Rightarrow> 'c \<Rightarrow> 'st \<Rightarrow> 'st" where
  "BitAndPixelOperations PT =
     BinaryWritePixel_WritePixel PT (PixelIntegerAdapter2 PT (\<lambda>a b. a AND b))"

subsection \<open>Alpha blending\<close>

text \<open>
  The expression \<^verbatim>\<open>a + ((int(b - a) * alpha) >> 8)\<close> occurs three times in the
  source, with \<^verbatim>\<open>alpha\<close> an \<^verbatim>\<open>int\<close> each time.  Both operands of \<^verbatim>\<open>b - a\<close> are
  promoted to \<^verbatim>\<open>int\<close> first; \<^verbatim>\<open>>>\<close> on a negative \<^verbatim>\<open>int\<close> is the arithmetic
  shift.  \<open>blend_product\<close> is the product \<^verbatim>\<open>int(b - a) * alpha\<close> and \<open>blend_sum\<close>
  the whole expression, both of type \<^verbatim>\<open>int\<close>.
\<close>

definition blend_product :: "int_t \<Rightarrow> uint8_t \<Rightarrow> uint8_t \<Rightarrow> int_t" where
  "blend_product alpha a b = ((ucast b :: int_t) - ucast a) * alpha"

definition blend_sum :: "int_t \<Rightarrow> uint8_t \<Rightarrow> uint8_t \<Rightarrow> int_t" where
  "blend_sum alpha a b = ucast a + signed_drop_bit 8 (blend_product alpha a b)"

text \<open>
  \<^verbatim>\<open>PixelAlphaOperation<T>\<close> with \<^verbatim>\<open>T = uint8_t\<close>: the constructor stores its
  \<^verbatim>\<open>uint8_t\<close> argument in a \<^verbatim>\<open>const int\<close>, and the return narrows the \<^verbatim>\<open>int\<close>
  to \<^verbatim>\<open>T\<close>.
\<close>

definition PixelAlphaOperation :: "uint8_t \<Rightarrow> uint8_t \<Rightarrow> uint8_t \<Rightarrow> uint8_t" where
  "PixelAlphaOperation alpha a b = ucast (blend_sum (ucast alpha) a b)"

definition AlphaPixelOperations ::
  "('p, 'c, uint8_t, 'i, 'st) PixelTraits \<Rightarrow> uint8_t \<Rightarrow> 'p \<Rightarrow> 'c \<Rightarrow> 'st \<Rightarrow> 'st" where
  "AlphaPixelOperations PT alpha =
     BinaryWritePixel_WritePixel PT (PixelPerChannelAdapter2 PT (PixelAlphaOperation alpha))"

text \<open>
  In \<^verbatim>\<open>PixelColoredAlpha\<close> and \<^verbatim>\<open>PixelOpaqueAlpha\<close> the lambda returns the
  \<^verbatim>\<open>int\<close>; the descriptor's \<^verbatim>\<open>TransformChannels\<close> stores it into a channel, which
  narrows it.
\<close>

definition PixelColoredAlpha ::
  "('p, 'c, uint8_t, 'i, 'st) PixelTraits \<Rightarrow> 'c \<Rightarrow> 'c \<Rightarrow> Luminosity8 \<Rightarrow> 'c" where
  "PixelColoredAlpha PT color a alpha =
     TransformChannels2 PT a color (\<lambda>a color. ucast (blend_sum (ucast alpha) a color))"

definition ColoredAlphaPixelOperations ::
  "('p, 'c, uint8_t, 'i, 'st) PixelTraits \<Rightarrow> 'c \<Rightarrow> 'p \<Rightarrow> Luminosity8 \<Rightarrow> 'st \<Rightarrow> 'st" where
  "ColoredAlphaPixelOperations PT color =
     BinaryWritePixel_WritePixel PT (PixelColoredAlpha PT color)"

definition PixelOpaqueAlpha ::
  "('p, 'c, uint8_t, 'i, 'st) PixelTraits \<Rightarrow> 'c \<Rightarrow> 'c \<Rightarrow> Luminosity8 \<Rightarrow> 'c" where
  "PixelOpaqueAlpha PT a b alpha =
     TransformChannels2 PT a b (\<lambda>a b. ucast (blend_sum (ucast alpha) a b))"

definition OpaqueAlphaPixelOperations ::
  "('p, 'c, uint8_t, 'i, 'st) PixelTraits \<Rightarrow> 'c \<Rightarrow> 'c \<Rightarrow> 'p \<Rightarrow> Luminosity8 \<Rightarrow> 'st \<Rightarrow> 'st" where
  "OpaqueAlphaPixelOperations PT a b =
     UnaryWritePixel_WritePixel PT (PixelOpaqueAlpha PT a b)"

subsection \<open>Glyph recolouring and colour keys\<close>

definition PixelOpaqueText ::
  "('sp, 'sc, 'sch, 'si, 'st) PixelTraits \<Rightarrow> 'c \<Rightarrow> 'c \<Rightarrow> 'sc \<Rightarrow> 'c" where
  "PixelOpaqueText SPT background_color text_color x =
     (if IsBlack SPT x then background_color else text_color)"

definition OpaqueTextPixelOperations ::
  "('p, 'c, 'ch, 'i, 'st) PixelTraits \<Rightarrow> ('sp, 'sc, 'sch, 'si, 'st) PixelTraits \<Rightarrow>
   'c \<Rightarrow> 'c \<Rightarrow> 'p \<Rightarrow> 'sc \<Rightarrow> 'st \<Rightarrow> 'st" where
  "OpaqueTextPixelOperations PT SPT background_color text_color =
     UnaryWritePixel_WritePixel PT (PixelOpaqueText SPT background_color text_color)"

definition ColorKey :: "'c \<Rightarrow> 'c \<Rightarrow> bool" where
  "ColorKey key c \<longleftrightarrow> c \<noteq> key"

definition TransparentPixelOperations ::
  "('p, 'c, 'ch, 'i, 'st) PixelTraits \<Rightarrow> 'c \<Rightarrow> 'p \<Rightarrow> 'c \<Rightarrow> 'st \<Rightarrow> 'st" where
  "TransparentPixelOperations PT key =
     ConditionalWritePixel_WritePixel PT (ColorKey key)"

definition TransparentInvertPixelOperations_WritePixel ::
  "('p, 'c, 'ch, 'a::len word, 'st) PixelTraits \<Rightarrow> 'c \<Rightarrow> 'p \<Rightarrow> 'c \<Rightarrow> 'st \<Rightarrow> 'st" where
  "TransparentInvertPixelOperations_WritePixel PT key p c s =
     (if c \<noteq> key then WritePixel PT p (PixelIntegerAdapter PT PixelBitNot c) s else s)"

section \<open>The XCOM760 radio driver\<close>

text \<open>
  The serial port is the list of the strings handed to \<^verbatim>\<open>Port::Write\<close> so far, and
  a \<^verbatim>\<open>RadioFrequency\<close> is the \<^verbatim>\<open>unsigned\<close> its \<^verbatim>\<open>GetKiloHertz()\<close> returns; both
  classes are declared outside the driver.  \<^verbatim>\<open>sprintf\<close> with \<^verbatim>\<open>%u\<close> prints an
  unsigned in decimal, with \<^verbatim>\<open>%03u\<close> padded with zeros to three digits.  The
  longest command has 19 characters, so the 32-byte buffer never overflows.
\<close>

type_synonym Port = "string list"

definition Port_Write :: "string \<Rightarrow> Port \<Rightarrow> Port" where
  "Port_Write s port = port @ [s]"

definition digit :: "nat \<Rightarrow> char" where
  "digit n = ''0123456789'' ! (n mod 10)"

function print_unsigned :: "nat \<Rightarrow> string" where
  "print_unsigned n =
     (if n < 10 then [digit n] else print_unsigned (n div 10) @ [digit n])"
  by pat_completeness auto
termination
  by (relation "measure id") auto

declare print_unsigned.simps [simp del]

definition zero_pad :: "nat \<Rightarrow> string \<Rightarrow> string" where
  "zero_pad w s = replicate (w - length s) (CHR ''0'') @ s"

definition sprintf_frequency :: "string \<Rightarrow> 32 word \<Rightarrow> 32 word \<Rightarrow> string" where
  "sprintf_frequency command whole fraction =
     command @ print_unsigned (unat whole) @ ''.'' @
     zero_pad 3 (print_unsigned (unat fraction)) @ [CHR 0x0D, CHR 0x0A]"

definition PutActiveFrequency :: "32 word \<Rightarrow> Port \<Rightarrow> bool \<times> Port" where
  "PutActiveFrequency frequency port =
     (let szTmp = sprintf_frequency ''$TXAF='' (frequency div 1000) (frequency mod 1000)
      in (True, Port_Write szTmp port))"

definition PutStandbyFrequency :: "32 word \<Rightarrow> Port \<Rightarrow> bool \<times> Port" where
  "PutStandbyFrequency frequency port =
     (let szTmp = sprintf_frequency ''$TXSF='' (frequency div 1000) (frequency mod 1000)
      in (True, port))"

section \<open>Vocabulary of the statements\<close>

text \<open>One iteration of the loop of \<^verbatim>\<open>CopyPixels\<close>, at index \<open>i\<close>.\<close>

definition CopyPixels_step ::
  "('p, 'c, 'ch, 'i, 'st) PixelTraits \<Rightarrow> ('sp, 'sc, 'sch, 'si, 'st) PixelTraits \<Rightarrow>
   ('p \<Rightarrow> 'sc \<Rightarrow> 'st \<Rightarrow> 'st) \<Rightarrow> 'p \<Rightarrow> 'sp \<Rightarrow> nat \<Rightarrow> 'st \<Rightarrow> 'st" where
  "CopyPixels_step PT SPT W p src i s =
     (case ReadPixel SPT (Next SPT src i) s of
        (c, s1) \<Rightarrow> PerPixelOperations_WritePixel W (Next PT p i) c s1)"

text \<open>The locations a trace wrote to, and the locations it read, in order.\<close>

fun written :: "access list \<Rightarrow> nat list" where
  "written [] = []"
| "written (WriteAt p # t) = p # written t"
| "written (ReadAt p # t) = written t"

fun fetched :: "access list \<Rightarrow> nat list" where
  "fetched [] = []"
| "fetched (ReadAt p # t) = p # fetched t"
| "fetched (WriteAt p # t) = fetched t"

text \<open>
  The rows of the specification's scenario A in one memory: the source row
  10, 200, 10, 250 at locations 0 to 3, and luminosity 5 everywhere else, so the
  destination row at locations 4 to 7 holds 5, 5, 5, 5.  Nothing has been
  accessed yet.
\<close>

definition scenario_A :: "Luminosity8 framebuffer" where
  "scenario_A = \<lparr>pixels = (\<lambda>a. 5)(0 := 10, 1 := 200, 2 := 10, 3 := 250), trace = []\<rparr>"

text \<open>A memory holding the luminosity \<open>v\<close> everywhere, not accessed yet.\<close>

definition uniform :: "Luminosity8 \<Rightarrow> Luminosity8 framebuffer" where
  "uniform v = \<lparr>pixels = (\<lambda>a. v), trace = []\<rparr>"

text \<open>
  The colour the loop of \<^verbatim>\<open>CopyPixels\<close> reads at index \<open>i\<close>: source pixel \<open>i\<close>
  at the moment the loop reaches it, after the iterations before \<open>i\<close>.
\<close>

definition CopyPixels_source ::
  "('p, 'c, 'ch, 'i, 'st) PixelTraits \<Rightarrow> ('sp, 'sc, 'sch, 'si, 'st) PixelTraits \<Rightarrow>
   ('p \<Rightarrow> 'sc \<Rightarrow> 'st \<Rightarrow> 'st) \<Rightarrow> 'p \<Rightarrow> 'sp \<Rightarrow> nat \<Rightarrow> 'st \<Rightarrow> 'sc" where
  "CopyPixels_source PT SPT W p src i s =
     fst (ReadPixel SPT (Next SPT src i) (CopyPixels PT SPT W p src i s))"

text \<open>
  Two overlapping rows: the source row 200, 10 at locations 2 and 3, the
  destination row at locations 3 and 4, and luminosity 10 everywhere else.
\<close>

definition overlapping_rows :: "Luminosity8 framebuffer" where
  "overlapping_rows = \<lparr>pixels = (\<lambda>a. 10)(2 := 200), trace = []\<rparr>"

section \<open>Arithmetic of the blend\<close>

lemma fits_int: "- 65536 \<le> k \<Longrightarrow> k \<le> 65536 \<Longrightarrow> signed_take_bit 31 (k :: int) = k"
  by (rule signed_take_bit_int_eq_self) simp_all

lemma uint8_range: "0 \<le> uint (a :: uint8_t) \<and> uint a \<le> 255"
  using uint_lt2p [of a] by simp

lemma sint_ucast8: "sint (ucast (a :: uint8_t) :: int_t) = uint a"
proof -
  have "signed_take_bit 31 (uint a) = uint a"
    using uint8_range [of a] by (intro fits_int) linarith+
  then show ?thesis by (simp add: signed_ucast_eq)
qed

lemma sint_ucast8_diff:
  "sint ((ucast (b :: uint8_t) :: int_t) - ucast (a :: uint8_t)) = uint b - uint a"
proof -
  have "- 255 \<le> uint b - uint a" "uint b - uint a \<le> 255"
    using uint8_range [of a] uint8_range [of b] by linarith+
  then show ?thesis
    by (simp add: sint_word_ariths sint_ucast8 fits_int)
qed

lemma product_range:
  fixes d l :: int
  assumes "- 255 \<le> d" "d \<le> 255" "0 \<le> l" "l \<le> 255"
  shows "- 65025 \<le> d * l \<and> d * l \<le> 65025"
proof -
  have "\<bar>d * l\<bar> = \<bar>d\<bar> * \<bar>l\<bar>" by (simp add: abs_mult)
  also have "\<dots> \<le> 255 * 255"
    using assms by (intro mult_mono) auto
  finally show ?thesis by linarith
qed

lemma sint_blend_product:
  "sint (blend_product (ucast (alpha :: uint8_t)) a b) = (uint b - uint a) * uint alpha"
proof -
  have r: "- 65025 \<le> (uint b - uint a) * uint alpha \<and> (uint b - uint a) * uint alpha \<le> 65025"
    using uint8_range [of a] uint8_range [of b] uint8_range [of alpha]
    by (intro product_range) linarith+
  have "sint (blend_product (ucast alpha) a b)
      = signed_take_bit 31 (sint ((ucast b :: int_t) - ucast a) * sint (ucast alpha :: int_t))"
    unfolding blend_product_def by (simp add: sint_word_ariths)
  also have "\<dots> = signed_take_bit 31 ((uint b - uint a) * uint alpha)"
    by (simp only: sint_ucast8_diff sint_ucast8)
  also have "\<dots> = (uint b - uint a) * uint alpha"
    using r by (intro fits_int) linarith+
  finally show ?thesis .
qed

lemma blend_range:
  fixes x y l :: int
  assumes "0 \<le> l" "l \<le> 255"
  shows "min x y \<le> x + (y - x) * l div 256 \<and> x + (y - x) * l div 256 \<le> max x y"
proof (cases "x \<le> y")
  case True
  have "0 \<le> (y - x) * l" using True assms by simp
  moreover have "(y - x) * l \<le> (y - x) * 256"
    using True assms by (intro mult_left_mono) linarith+
  ultimately have "0 \<le> (y - x) * l div 256" "(y - x) * l div 256 \<le> y - x"
    using zdiv_mono1 [of 0 "(y - x) * l" 256] zdiv_mono1 [of "(y - x) * l" "(y - x) * 256" 256]
    by simp_all
  with True show ?thesis by simp
next
  case False
  have "(y - x) * l \<le> 0" using False assms by (simp add: mult_nonpos_nonneg)
  moreover have "(y - x) * 256 \<le> (y - x) * l"
    using False assms by (intro mult_left_mono_neg) linarith+
  ultimately have "(y - x) * l div 256 \<le> 0" "y - x \<le> (y - x) * l div 256"
    using zdiv_mono1 [of "(y - x) * l" 0 256] zdiv_mono1 [of "(y - x) * 256" "(y - x) * l" 256]
    by simp_all
  with False show ?thesis by simp
qed

lemma blend_range8:
  "min (uint a) (uint b) \<le> uint a + (uint b - uint a) * uint alpha div 256 \<and>
   uint a + (uint b - uint a) * uint alpha div 256 \<le> max (uint a) (uint b)"
  for a b alpha :: uint8_t
  using uint8_range [of alpha] by (intro blend_range) linarith+

lemma sint_blend_sum:
  "sint (blend_sum (ucast (alpha :: uint8_t)) a b)
     = uint a + (uint b - uint a) * uint alpha div 256"
proof -
  let ?q = "(uint b - uint a) * uint alpha div 256"
  have "0 \<le> uint a + ?q" "uint a + ?q \<le> 255"
    using blend_range8 [of a b alpha] uint8_range [of a] uint8_range [of b] by linarith+
  then have "signed_take_bit 31 (uint a + ?q) = uint a + ?q"
    by (intro fits_int) linarith+
  then show ?thesis
    by (simp add: blend_sum_def sint_word_ariths sint_ucast8 sint_signed_drop_bit_eq
        sint_blend_product drop_bit_eq_div)
qed

lemma uint_narrow_blend_sum:
  "uint (ucast (blend_sum (ucast (alpha :: uint8_t)) a b) :: uint8_t)
     = uint a + (uint b - uint a) * uint alpha div 256"
proof -
  let ?w = "blend_sum (ucast alpha) a b"
  let ?r = "uint a + (uint b - uint a) * uint alpha div 256"
  have r: "0 \<le> ?r" "?r \<le> 255"
    using blend_range8 [of a b alpha] uint8_range [of a] uint8_range [of b] by linarith+
  have "uint (ucast ?w :: uint8_t) = take_bit 8 (uint ?w)"
    by (simp add: unsigned_ucast_eq)
  also have "\<dots> = take_bit 8 (take_bit 32 (sint ?w))"
    by (simp add: uint_sint)
  also have "\<dots> = take_bit 8 ?r"
    by (simp add: sint_blend_sum)
  also have "\<dots> = ?r"
    using r by (simp add: take_bit_int_eq_self)
  finally show ?thesis .
qed

lemma uint_PixelAlphaOperation:
  "uint (PixelAlphaOperation alpha a b) = uint a + (uint b - uint a) * uint alpha div 256"
  unfolding PixelAlphaOperation_def by (rule uint_narrow_blend_sum)

section \<open>Alpha blend: exact value and bounds\<close>

text \<open>
  Claim C1.  For all channel values \<open>a\<close> (destination) and \<open>b\<close> (source) and every
  \<open>alpha\<close> in 0..255, the blend returns exactly \<open>a + (((b - a) * alpha) >> 8)\<close>
  computed over the integers, where \<open>>> 8\<close> is the arithmetic shift (division by
  256 rounding down).  So alpha 0 returns \<open>a\<close>, alpha 255 returns
  \<open>a + (((b - a) * 255) >> 8)\<close>, which is 254 and not 255 for \<open>a = 0\<close>,
  \<open>b = 255\<close>, and alpha 128 blends 0 and 100 to 50.
\<close>

theorem PixelAlphaOperation_exact:
  "uint (PixelAlphaOperation alpha a b) = uint a + drop_bit 8 ((uint b - uint a) * uint alpha)
   \<and> PixelAlphaOperation 0 a b = a
   \<and> uint (PixelAlphaOperation 255 a b) = uint a + drop_bit 8 ((uint b - uint a) * 255)
   \<and> PixelAlphaOperation 255 0 255 = 254
   \<and> PixelAlphaOperation 128 0 100 = 50"
proof -
  have "uint (PixelAlphaOperation 0 a b) = uint a"
    by (simp add: uint_PixelAlphaOperation)
  then have zero: "PixelAlphaOperation 0 a b = a"
    by (simp add: word_uint_eq_iff)
  have "uint (PixelAlphaOperation 255 0 255) = uint (254 :: uint8_t)"
    by (simp add: uint_PixelAlphaOperation)
  then have full: "PixelAlphaOperation 255 0 255 = 254"
    by (simp only: word_uint_eq_iff)
  have "uint (PixelAlphaOperation 128 0 100) = uint (50 :: uint8_t)"
    by (simp add: uint_PixelAlphaOperation)
  then have half: "PixelAlphaOperation 128 0 100 = 50"
    by (simp only: word_uint_eq_iff)
  show ?thesis
    using zero full half by (simp add: uint_PixelAlphaOperation drop_bit_eq_div)
qed

text \<open>
  Claim C5.  For all channel values \<open>a\<close>, \<open>b\<close> and every \<open>alpha\<close> in 0..255 the
  blend lies between \<open>min a b\<close> and \<open>max a b\<close> (so in particular within one unit
  of that interval).  The widened product \<open>(b - a) * alpha\<close> is computed without
  overflow: the 32-bit \<^verbatim>\<open>int\<close> holds the mathematical product.  The \<^verbatim>\<open>int\<close> sum
  before the return is already a channel value, so narrowing it to the channel
  type loses nothing.
\<close>

theorem PixelAlphaOperation_bounds:
  "min (uint a) (uint b) \<le> uint (PixelAlphaOperation alpha a b)
   \<and> uint (PixelAlphaOperation alpha a b) \<le> max (uint a) (uint b)
   \<and> min (uint a) (uint b) - 1 \<le> uint (PixelAlphaOperation alpha a b)
   \<and> uint (PixelAlphaOperation alpha a b) \<le> max (uint a) (uint b) + 1
   \<and> sint (blend_product (ucast alpha) a b) = (uint b - uint a) * uint alpha
   \<and> sint (blend_sum (ucast alpha) a b) = uint a + drop_bit 8 ((uint b - uint a) * uint alpha)
   \<and> uint (PixelAlphaOperation alpha a b) = sint (blend_sum (ucast alpha) a b)"
  using blend_range8 [of a b alpha]
  by (simp add: uint_PixelAlphaOperation sint_blend_product sint_blend_sum drop_bit_eq_div)

section \<open>Bit-Not\<close>

text \<open>
  Claim C6.  Bit-Not is the bitwise complement over the fixed width of the packed
  integer: bit \<open>n\<close> of the result is set exactly when \<open>n\<close> is below the width and
  bit \<open>n\<close> of the argument is clear.  Applying it twice returns the argument, for
  every packed integer of every width.
\<close>

theorem PixelBitNot_involution:
  "PixelBitNot (PixelBitNot x) = x
   \<and> (bit (PixelBitNot x) n \<longleftrightarrow> n < LENGTH('a) \<and> \<not> bit x n)"
  for x :: "'a::len word"
  by (simp add: PixelBitNot_def bit_not_iff)


section \<open>The copy loop as a fold\<close>

lemma CopyPixels_from_fold:
  "CopyPixels_from PT SPT W p src n i s = fold (CopyPixels_step PT SPT W p src) [i..<n] s"
proof (induction PT SPT W p src n i s rule: CopyPixels_from.induct)
  case (1 PT SPT W p src n i s)
  show ?case
  proof (cases "i < n")
    case True
    obtain c s1 where r: "ReadPixel SPT (Next SPT src i) s = (c, s1)"
      by (cases "ReadPixel SPT (Next SPT src i) s")
    have "CopyPixels_from PT SPT W p src n i s =
          CopyPixels_from PT SPT W p src n (Suc i)
            (PerPixelOperations_WritePixel W (Next PT p i) c s1)"
      using True r by (subst CopyPixels_from.simps) simp
    also have "\<dots> = fold (CopyPixels_step PT SPT W p src) [Suc i..<n]
                       (PerPixelOperations_WritePixel W (Next PT p i) c s1)"
      using True r by (intro "1.IH") simp_all
    also have "\<dots> = fold (CopyPixels_step PT SPT W p src) [i..<n] s"
      using True r by (simp add: upt_conv_Cons CopyPixels_step_def)
    finally show ?thesis .
  next
    case False
    then show ?thesis by (subst CopyPixels_from.simps) simp
  qed
qed

lemma CopyPixels_fold:
  "CopyPixels PT SPT W p src n s = fold (CopyPixels_step PT SPT W p src) [0..<n] s"
  by (simp add: CopyPixels_def CopyPixels_from_fold)

section \<open>Pixelwise strategies on the framebuffer\<close>

lemma framebuffer_eqI:
  "pixels s = pixels t \<Longrightarrow> trace s = trace t \<Longrightarrow> s = t" for s t :: "'c framebuffer"
  by simp

lemma UnaryWritePixel_on_framebuffer:
  assumes "on_framebuffer PT"
  shows "UnaryWritePixel_WritePixel PT Operation q c s =
         s\<lparr>pixels := (pixels s)(q := Operation c), trace := trace s @ [WriteAt q]\<rparr>"
  using assms
  by (simp add: on_framebuffer_def UnaryWritePixel_WritePixel_def framebuffer_WritePixel_def)

lemma BinaryWritePixel_on_framebuffer:
  assumes "on_framebuffer PT"
  shows "BinaryWritePixel_WritePixel PT Operation q c s =
         s\<lparr>pixels := (pixels s)(q := Operation (pixels s q) c),
           trace := trace s @ [ReadAt q, WriteAt q]\<rparr>"
  using assms
  by (simp add: on_framebuffer_def BinaryWritePixel_WritePixel_def framebuffer_WritePixel_def
      framebuffer_ReadPixel_def)

lemma ConditionalWritePixel_on_framebuffer:
  assumes "on_framebuffer PT"
  shows "ConditionalWritePixel_WritePixel PT Check q c s =
         s\<lparr>pixels := (pixels s)(q := if Check c then c else pixels s q),
           trace := trace s @ (if Check c then [WriteAt q] else [])\<rparr>"
  using assms
  by (simp add: on_framebuffer_def ConditionalWritePixel_WritePixel_def framebuffer_WritePixel_def)

text \<open>Filling with a strategy that rewrites one pixel from its old value and the colour.\<close>

lemma fold_pixelwise_fill:
  fixes W :: "nat \<Rightarrow> 'sc \<Rightarrow> 'c framebuffer \<Rightarrow> 'c framebuffer"
  assumes W: "\<And>q c s. W q c s = s\<lparr>pixels := (pixels s)(q := g (pixels s q) c),
                                   trace := trace s @ tr q c\<rparr>"
  shows "fold (\<lambda>i. W (p + i) c) [0..<n] s =
         s\<lparr>pixels := (\<lambda>a. if p \<le> a \<and> a < p + n then g (pixels s a) c else pixels s a),
           trace := trace s @ concat (map (\<lambda>i. tr (p + i) c) [0..<n])\<rparr>"
proof (induction n)
  case 0
  show ?case by (rule framebuffer_eqI) (auto simp: fun_eq_iff)
next
  case (Suc n)
  have "fold (\<lambda>i. W (p + i) c) [0..<Suc n] s = W (p + n) c (fold (\<lambda>i. W (p + i) c) [0..<n] s)"
    by simp
  also have "\<dots> = W (p + n) c
      (s\<lparr>pixels := (\<lambda>a. if p \<le> a \<and> a < p + n then g (pixels s a) c else pixels s a),
         trace := trace s @ concat (map (\<lambda>i. tr (p + i) c) [0..<n])\<rparr>)"
    by (simp only: Suc)
  also have "\<dots> =
      s\<lparr>pixels := (\<lambda>a. if p \<le> a \<and> a < p + Suc n then g (pixels s a) c else pixels s a),
        trace := trace s @ concat (map (\<lambda>i. tr (p + i) c) [0..<Suc n])\<rparr>"
    unfolding W by (rule framebuffer_eqI) (auto simp: fun_eq_iff)
  finally show ?case .
qed

lemma FillPixels_pixelwise:
  assumes "on_framebuffer PT"
    and W: "\<And>q c s. W q c s = s\<lparr>pixels := (pixels s)(q := g (pixels s q) c),
                                   trace := trace s @ tr q c\<rparr>"
  shows "FillPixels PT W p n c s =
         s\<lparr>pixels := (\<lambda>a. if p \<le> a \<and> a < p + n then g (pixels s a) c else pixels s a),
           trace := trace s @ concat (map (\<lambda>i. tr (p + i) c) [0..<n])\<rparr>"
proof -
  have "FillPixels PT W p n c s = fold (\<lambda>i. W (p + i) c) [0..<n] s"
    using assms(1)
    by (simp add: FillPixels_def on_framebuffer_def framebuffer_ForHorizontal_def
        framebuffer_Next_def PerPixelOperations_WritePixel_def)
  then show ?thesis by (simp add: fold_pixelwise_fill [where W = W, OF W])
qed

text \<open>Copying with such a strategy, when no read sees an earlier write.\<close>

lemma fold_pixelwise_copy:
  assumes SPT: "on_framebuffer SPT" and PT: "on_framebuffer PT"
    and W: "\<And>q c s. W q c s = s\<lparr>pixels := (pixels s)(q := g (pixels s q) c),
                                   trace := trace s @ tr q c\<rparr>"
    and apart: "p \<le> src \<or> src + n \<le> p"
  shows "fold (CopyPixels_step PT SPT W p src) [0..<n] s =
         s\<lparr>pixels := (\<lambda>a. if p \<le> a \<and> a < p + n
                            then g (pixels s a) (pixels s (src + (a - p))) else pixels s a),
           trace := trace s @
             concat (map (\<lambda>i. ReadAt (src + i) # tr (p + i) (pixels s (src + i))) [0..<n])\<rparr>"
  using apart
proof (induction n)
  case 0
  show ?case by (rule framebuffer_eqI) (auto simp: fun_eq_iff)
next
  case (Suc n)
  from Suc.prems have ap: "p \<le> src \<or> src + n \<le> p" by linarith
  have step: "CopyPixels_step PT SPT W p src i t =
      t\<lparr>pixels := (pixels t)(p + i := g (pixels t (p + i)) (pixels t (src + i))),
        trace := trace t @ ReadAt (src + i) # tr (p + i) (pixels t (src + i))\<rparr>" for i t
    using SPT PT
    by (simp add: CopyPixels_step_def on_framebuffer_def framebuffer_ReadPixel_def
        framebuffer_Next_def PerPixelOperations_WritePixel_def W)
  let ?F = "CopyPixels_step PT SPT W p src"
  let ?mid = "s\<lparr>pixels := (\<lambda>a. if p \<le> a \<and> a < p + n
                            then g (pixels s a) (pixels s (src + (a - p))) else pixels s a),
           trace := trace s @
             concat (map (\<lambda>i. ReadAt (src + i) # tr (p + i) (pixels s (src + i))) [0..<n])\<rparr>"
  from Suc.prems have src_n: "\<not> (p \<le> src + n \<and> src + n < p + n)" by linarith
  have "fold ?F [0..<Suc n] s = ?F n (fold ?F [0..<n] s)"
    by simp
  also have "\<dots> = ?F n ?mid"
    by (simp only: Suc.IH [OF ap])
  also have "\<dots> =
      s\<lparr>pixels := (\<lambda>a. if p \<le> a \<and> a < p + Suc n
                            then g (pixels s a) (pixels s (src + (a - p))) else pixels s a),
           trace := trace s @
             concat (map (\<lambda>i. ReadAt (src + i) # tr (p + i) (pixels s (src + i))) [0..<Suc n])\<rparr>"
    unfolding step using src_n by (intro framebuffer_eqI) (auto simp: fun_eq_iff)
  finally show ?case .
qed

lemma on_framebuffer_source: "on_framebuffer PT \<Longrightarrow> source_on_framebuffer id PT"
  by (simp add: on_framebuffer_def source_on_framebuffer_def fun_eq_iff
      framebuffer_ReadPixel_def framebuffer_ReadPixel_as_def)

text \<open>Copying with a pixelwise strategy, overlapping rows or not.\<close>

lemma fold_pixelwise_copy_read:
  fixes W :: "nat \<Rightarrow> 'sc \<Rightarrow> 'c framebuffer \<Rightarrow> 'c framebuffer"
  assumes SPT: "source_on_framebuffer view SPT" and PT: "on_framebuffer PT"
    and W: "\<And>q c s. W q c s = s\<lparr>pixels := (pixels s)(q := g (pixels s q) c),
                                   trace := trace s @ tr q c\<rparr>"
    and seen: "\<And>i. seen i = view (pixels (fold (CopyPixels_step PT SPT W p src) [0..<i] s) (src + i))"
  shows "fold (CopyPixels_step PT SPT W p src) [0..<n] s =
         s\<lparr>pixels := (\<lambda>a. if p \<le> a \<and> a < p + n
                            then g (pixels s a) (seen (a - p)) else pixels s a),
           trace := trace s @
             concat (map (\<lambda>i. ReadAt (src + i) # tr (p + i) (seen i)) [0..<n])\<rparr>"
proof (induction n)
  case 0
  show ?case by (rule framebuffer_eqI) (auto simp: fun_eq_iff)
next
  case (Suc n)
  let ?F = "CopyPixels_step PT SPT W p src"
  let ?mid = "s\<lparr>pixels := (\<lambda>a. if p \<le> a \<and> a < p + n
                            then g (pixels s a) (seen (a - p)) else pixels s a),
           trace := trace s @
             concat (map (\<lambda>i. ReadAt (src + i) # tr (p + i) (seen i)) [0..<n])\<rparr>"
  have step: "?F i t =
      t\<lparr>pixels := (pixels t)(p + i := g (pixels t (p + i)) (view (pixels t (src + i)))),
        trace := trace t @ ReadAt (src + i) # tr (p + i) (view (pixels t (src + i)))\<rparr>" for i t
    using SPT PT
    by (simp add: CopyPixels_step_def on_framebuffer_def source_on_framebuffer_def
        framebuffer_ReadPixel_as_def framebuffer_Next_def PerPixelOperations_WritePixel_def W)
  have seen_n: "view (pixels ?mid (src + n)) = seen n"
    by (simp only: seen [of n] Suc.IH)
  have "fold ?F [0..<Suc n] s = ?F n (fold ?F [0..<n] s)"
    by simp
  also have "\<dots> = ?F n ?mid"
    by (simp only: Suc.IH)
  also have "\<dots> =
      ?mid\<lparr>pixels := (pixels ?mid)(p + n := g (pixels ?mid (p + n)) (seen n)),
        trace := trace ?mid @ ReadAt (src + n) # tr (p + n) (seen n)\<rparr>"
    by (simp only: step seen_n)
  also have "\<dots> =
      s\<lparr>pixels := (\<lambda>a. if p \<le> a \<and> a < p + Suc n
                            then g (pixels s a) (seen (a - p)) else pixels s a),
           trace := trace s @
             concat (map (\<lambda>i. ReadAt (src + i) # tr (p + i) (seen i)) [0..<Suc n])\<rparr>"
    by (intro framebuffer_eqI) (auto simp: fun_eq_iff)
  finally show ?case .
qed

lemma CopyPixels_source_on_framebuffer:
  assumes "source_on_framebuffer view SPT"
  shows "CopyPixels_source PT SPT W p src i s
         = view (pixels (fold (CopyPixels_step PT SPT W p src) [0..<i] s) (src + i))"
  using assms
  by (simp add: CopyPixels_source_def CopyPixels_fold source_on_framebuffer_def
      framebuffer_ReadPixel_as_def framebuffer_Next_def)

lemma CopyPixels_pixelwise:
  fixes W :: "nat \<Rightarrow> 'sc \<Rightarrow> 'c framebuffer \<Rightarrow> 'c framebuffer"
  assumes SPT: "source_on_framebuffer view SPT" and PT: "on_framebuffer PT"
    and W: "\<And>q c s. W q c s = s\<lparr>pixels := (pixels s)(q := g (pixels s q) c),
                                   trace := trace s @ tr q c\<rparr>"
  shows "CopyPixels PT SPT W p src n s =
         s\<lparr>pixels := (\<lambda>a. if p \<le> a \<and> a < p + n
                            then g (pixels s a) (CopyPixels_source PT SPT W p src (a - p) s)
                            else pixels s a),
           trace := trace s @
             concat (map (\<lambda>i. ReadAt (src + i) #
                               tr (p + i) (CopyPixels_source PT SPT W p src i s)) [0..<n])\<rparr>"
  unfolding CopyPixels_fold
  by (rule fold_pixelwise_copy_read [OF SPT PT W])
     (simp add: CopyPixels_source_on_framebuffer [OF SPT])

section \<open>The strategies and the engine on the framebuffer\<close>

lemma on_framebuffer_Greyscale: "on_framebuffer GreyscalePixelTraits"
  by (simp add: on_framebuffer_def GreyscalePixelTraits_def)

lemma FillPixels_Unary:
  assumes "on_framebuffer PT"
  shows "FillPixels PT (UnaryWritePixel_WritePixel PT Operation) p n c s =
         s\<lparr>pixels := (\<lambda>a. if p \<le> a \<and> a < p + n then Operation c else pixels s a),
           trace := trace s @ concat (map (\<lambda>i. [WriteAt (p + i)]) [0..<n])\<rparr>"
  by (rule FillPixels_pixelwise [OF assms]) (rule UnaryWritePixel_on_framebuffer [OF assms])

lemma FillPixels_Binary:
  assumes "on_framebuffer PT"
  shows "FillPixels PT (BinaryWritePixel_WritePixel PT Operation) p n c s =
         s\<lparr>pixels := (\<lambda>a. if p \<le> a \<and> a < p + n then Operation (pixels s a) c else pixels s a),
           trace := trace s @ concat (map (\<lambda>i. [ReadAt (p + i), WriteAt (p + i)]) [0..<n])\<rparr>"
  by (rule FillPixels_pixelwise [OF assms]) (rule BinaryWritePixel_on_framebuffer [OF assms])

lemma FillPixels_Conditional:
  assumes "on_framebuffer PT"
  shows "FillPixels PT (ConditionalWritePixel_WritePixel PT Check) p n c s =
         s\<lparr>pixels := (\<lambda>a. if p \<le> a \<and> a < p + n then (if Check c then c else pixels s a)
                            else pixels s a),
           trace := trace s @
             concat (map (\<lambda>i. if Check c then [WriteAt (p + i)] else []) [0..<n])\<rparr>"
  by (rule FillPixels_pixelwise [OF assms]) (rule ConditionalWritePixel_on_framebuffer [OF assms])

lemma CopyPixels_Unary:
  assumes "on_framebuffer PT" "on_framebuffer SPT" "p \<le> src \<or> src + n \<le> p"
  shows "CopyPixels PT SPT (UnaryWritePixel_WritePixel PT Operation) p src n s =
         s\<lparr>pixels := (\<lambda>a. if p \<le> a \<and> a < p + n
                            then Operation (pixels s (src + (a - p))) else pixels s a),
           trace := trace s @
             concat (map (\<lambda>i. ReadAt (src + i) # [WriteAt (p + i)]) [0..<n])\<rparr>"
  unfolding CopyPixels_fold
  by (rule fold_pixelwise_copy [OF assms(2) assms(1) _ assms(3)])
     (rule UnaryWritePixel_on_framebuffer [OF assms(1)])

lemma CopyPixels_Binary:
  assumes "on_framebuffer PT" "on_framebuffer SPT" "p \<le> src \<or> src + n \<le> p"
  shows "CopyPixels PT SPT (BinaryWritePixel_WritePixel PT Operation) p src n s =
         s\<lparr>pixels := (\<lambda>a. if p \<le> a \<and> a < p + n
                            then Operation (pixels s a) (pixels s (src + (a - p))) else pixels s a),
           trace := trace s @
             concat (map (\<lambda>i. ReadAt (src + i) # [ReadAt (p + i), WriteAt (p + i)]) [0..<n])\<rparr>"
  unfolding CopyPixels_fold
  by (rule fold_pixelwise_copy [OF assms(2) assms(1) _ assms(3)])
     (rule BinaryWritePixel_on_framebuffer [OF assms(1)])

lemma CopyPixels_Conditional:
  assumes "on_framebuffer PT" "on_framebuffer SPT" "p \<le> src \<or> src + n \<le> p"
  shows "CopyPixels PT SPT (ConditionalWritePixel_WritePixel PT Check) p src n s =
         s\<lparr>pixels := (\<lambda>a. if p \<le> a \<and> a < p + n
                            then (if Check (pixels s (src + (a - p)))
                                  then pixels s (src + (a - p)) else pixels s a)
                            else pixels s a),
           trace := trace s @
             concat (map (\<lambda>i. ReadAt (src + i) #
                           (if Check (pixels s (src + i)) then [WriteAt (p + i)] else []))
                      [0..<n])\<rparr>"
  unfolding CopyPixels_fold
  by (rule fold_pixelwise_copy [OF assms(2) assms(1) _ assms(3)])
     (rule ConditionalWritePixel_on_framebuffer [OF assms(1)])

lemma written_append [simp]: "written (xs @ ys) = written xs @ written ys"
  by (induction xs rule: written.induct) simp_all

lemma fetched_append [simp]: "fetched (xs @ ys) = fetched xs @ fetched ys"
  by (induction xs rule: fetched.induct) simp_all

lemma written_concat: "written (concat (map f xs)) = concat (map (\<lambda>i. written (f i)) xs)"
  by (induction xs) simp_all

lemma fetched_concat: "fetched (concat (map f xs)) = concat (map (\<lambda>i. fetched (f i)) xs)"
  by (induction xs) simp_all

lemma concat_singletons: "concat (map (\<lambda>i. [f i]) xs) = map f xs"
  by (induction xs) simp_all

lemma written_conditional:
  "written (concat (map (\<lambda>i. ReadAt (f i) # (if P i then [WriteAt (h i)] else [])) xs))
   = map h (filter P xs)"
  by (induction xs) simp_all

lemma fetched_conditional:
  "fetched (concat (map (\<lambda>i. ReadAt (f i) # (if P i then [WriteAt (h i)] else [])) xs))
   = map f xs"
  by (induction xs) simp_all

lemma CopyPixels_Unary_read:
  assumes "on_framebuffer PT" "source_on_framebuffer view SPT"
  shows "CopyPixels PT SPT (UnaryWritePixel_WritePixel PT Operation) p src n s =
         s\<lparr>pixels := (\<lambda>a. if p \<le> a \<and> a < p + n
              then Operation (CopyPixels_source PT SPT (UnaryWritePixel_WritePixel PT Operation)
                                p src (a - p) s)
              else pixels s a),
           trace := trace s @
             concat (map (\<lambda>i. ReadAt (src + i) # [WriteAt (p + i)]) [0..<n])\<rparr>"
  by (rule CopyPixels_pixelwise [OF assms(2) assms(1)])
     (rule UnaryWritePixel_on_framebuffer [OF assms(1)])

lemma CopyPixels_Binary_read:
  assumes "on_framebuffer PT" "source_on_framebuffer view SPT"
  shows "CopyPixels PT SPT (BinaryWritePixel_WritePixel PT Operation) p src n s =
         s\<lparr>pixels := (\<lambda>a. if p \<le> a \<and> a < p + n
              then Operation (pixels s a)
                     (CopyPixels_source PT SPT (BinaryWritePixel_WritePixel PT Operation)
                        p src (a - p) s)
              else pixels s a),
           trace := trace s @
             concat (map (\<lambda>i. ReadAt (src + i) # [ReadAt (p + i), WriteAt (p + i)]) [0..<n])\<rparr>"
  by (rule CopyPixels_pixelwise [OF assms(2) assms(1)])
     (rule BinaryWritePixel_on_framebuffer [OF assms(1)])

lemma CopyPixels_Conditional_read:
  assumes "on_framebuffer PT" "source_on_framebuffer view SPT"
  shows "CopyPixels PT SPT (ConditionalWritePixel_WritePixel PT Check) p src n s =
         s\<lparr>pixels := (\<lambda>a. if p \<le> a \<and> a < p + n
              then (if Check (CopyPixels_source PT SPT (ConditionalWritePixel_WritePixel PT Check)
                                p src (a - p) s)
                    then CopyPixels_source PT SPT (ConditionalWritePixel_WritePixel PT Check)
                           p src (a - p) s
                    else pixels s a)
              else pixels s a),
           trace := trace s @
             concat (map (\<lambda>i. ReadAt (src + i) #
                 (if Check (CopyPixels_source PT SPT (ConditionalWritePixel_WritePixel PT Check)
                              p src i s)
                  then [WriteAt (p + i)] else [])) [0..<n])\<rparr>"
  by (rule CopyPixels_pixelwise [OF assms(2) assms(1)])
     (rule ConditionalWritePixel_on_framebuffer [OF assms(1)])

lemma overlapping_rows_seen:
  "CopyPixels_source GreyscalePixelTraits GreyscalePixelTraits
     (ConditionalWritePixel_WritePixel GreyscalePixelTraits (ColorKey 10)) 3 2 0 overlapping_rows = 200"
  "CopyPixels_source GreyscalePixelTraits GreyscalePixelTraits
     (ConditionalWritePixel_WritePixel GreyscalePixelTraits (ColorKey 10)) 3 2 (Suc 0) overlapping_rows = 200"
  "trace overlapping_rows = []"
  by (simp_all add: CopyPixels_source_def CopyPixels_fold CopyPixels_step_def
      PerPixelOperations_WritePixel_def ConditionalWritePixel_WritePixel_def ColorKey_def
      GreyscalePixelTraits_def framebuffer_ReadPixel_def framebuffer_WritePixel_def
      framebuffer_Next_def overlapping_rows_def)

lemma scenario_A_seen:
  "CopyPixels_source GreyscalePixelTraits GreyscalePixelTraits
     (UnaryWritePixel_WritePixel GreyscalePixelTraits
        (PixelIntegerAdapter GreyscalePixelTraits PixelBitNot)) 4 0 (Suc 0) scenario_A = 200"
  by (simp add: CopyPixels_source_def CopyPixels_fold CopyPixels_step_def
      PerPixelOperations_WritePixel_def UnaryWritePixel_WritePixel_def
      GreyscalePixelTraits_def framebuffer_ReadPixel_def framebuffer_WritePixel_def
      framebuffer_Next_def scenario_A_def)

lemma Greyscale_BitNot_200:
  "PixelIntegerAdapter GreyscalePixelTraits PixelBitNot (200 :: Luminosity8) = 55"
  by (simp add: PixelIntegerAdapter_def PixelBitNot_def GreyscalePixelTraits_def)

lemma CopyPixels_resume:
  assumes "k \<le> n"
  shows "CopyPixels PT SPT W p src n s =
         fold (CopyPixels_step PT SPT W p src) [k..<n] (CopyPixels PT SPT W p src k s)"
proof -
  have "[0..<n] = [0..<k] @ [k..<n]"
    using assms by (metis le_add_diff_inverse upt_add_eq_append zero_le)
  then show ?thesis
    by (simp add: CopyPixels_fold)
qed

lemma CopyPixels_step_source:
  "CopyPixels_step PT SPT W p src i (CopyPixels PT SPT W p src i s) =
   PerPixelOperations_WritePixel W (Next PT p i) (CopyPixels_source PT SPT W p src i s)
     (snd (ReadPixel SPT (Next SPT src i) (CopyPixels PT SPT W p src i s)))"
  by (simp add: CopyPixels_step_def CopyPixels_source_def split: prod.split)

lemma fetched_pairs:
  "fetched (concat (map (\<lambda>i. [ReadAt (f i), ReadAt (h i), WriteAt (k i)]) xs))
   = concat (map (\<lambda>i. [f i, h i]) xs)"
  by (induction xs) simp_all

lemma range2: "[0..<2] = [0, 1]"
  by (simp add: upt_rec)

lemma range4: "[0..<4] = [0, 1, 2, 3]"
  by (simp add: upt_rec)

lemma scenarioA_copy:
  "CopyPixels GreyscalePixelTraits GreyscalePixelTraits
     (TransparentPixelOperations GreyscalePixelTraits 10) 4 0 4 scenario_A =
   \<lparr>pixels = (\<lambda>a. 5)(0 := 10, 1 := 200, 2 := 10, 3 := 250, 5 := 200, 7 := 250),
    trace = [ReadAt 0, ReadAt 1, WriteAt 5, ReadAt 2, ReadAt 3, WriteAt 7]\<rparr>"
  unfolding TransparentPixelOperations_def
  by (subst CopyPixels_Conditional [OF on_framebuffer_Greyscale on_framebuffer_Greyscale])
     (auto simp: scenario_A_def ColorKey_def range4 fun_eq_iff)

section \<open>Colour-key transparency\<close>

text \<open>
  Claim C2.  For every source colour \<open>c\<close> and every state of the destination,
  Conditional-Write with the Color-Key predicate for \<open>key\<close> writes \<open>c\<close> to the
  destination pixel when \<open>c\<close> differs from \<open>key\<close>, and when \<open>c\<close> equals \<open>key\<close>
  it returns the state it was given: nothing is read, nothing is written and the
  destination pixel keeps its value.  Copying the source row 10, 200, 10, 250
  with key 10 over the destination row 5, 5, 5, 5 gives 5, 200, 5, 250; the only
  accesses are the four source reads and the writes to the second and fourth
  destination pixel.
\<close>

theorem ColorKey_conditional_write:
  "(c \<noteq> key \<longrightarrow>
      PerPixelOperations_WritePixel (TransparentPixelOperations PT key) p c s = WritePixel PT p c s)
   \<and> (c = key \<longrightarrow>
      PerPixelOperations_WritePixel (TransparentPixelOperations PT key) p c s = s)
   \<and> map (pixels (CopyPixels GreyscalePixelTraits GreyscalePixelTraits
              (TransparentPixelOperations GreyscalePixelTraits 10) 4 0 4 scenario_A))
         [4, 5, 6, 7] = [5, 200, 5, 250]
   \<and> trace (CopyPixels GreyscalePixelTraits GreyscalePixelTraits
              (TransparentPixelOperations GreyscalePixelTraits 10) 4 0 4 scenario_A)
       = [ReadAt 0, ReadAt 1, WriteAt 5, ReadAt 2, ReadAt 3, WriteAt 7]"
proof -
  have "PerPixelOperations_WritePixel (TransparentPixelOperations PT key) p c s =
        (if c \<noteq> key then WritePixel PT p c s else s)"
    by (simp add: PerPixelOperations_WritePixel_def TransparentPixelOperations_def
        ConditionalWritePixel_WritePixel_def ColorKey_def)
  then show ?thesis
    by (auto simp: scenarioA_copy)
qed

text \<open>
  On the greyscale framebuffer: colour 200 under key 10 is written to location 5,
  colour 10 under key 10 leaves the memory and its trace as they were.
\<close>

theorem ColorKey_conditional_write_witness:
  "(200 :: Luminosity8) \<noteq> 10
   \<and> PerPixelOperations_WritePixel (TransparentPixelOperations GreyscalePixelTraits 10) 5 200
       (uniform 5) = \<lparr>pixels = (\<lambda>a. 5)(5 := 200), trace = [WriteAt 5]\<rparr>
   \<and> PerPixelOperations_WritePixel (TransparentPixelOperations GreyscalePixelTraits 10) 4 10
       (uniform 5) = uniform 5"
  using ColorKey_conditional_write [of 200 10 GreyscalePixelTraits 5 "uniform 5"]
    ColorKey_conditional_write [of 10 10 GreyscalePixelTraits 4 "uniform 5"]
  by (simp add: GreyscalePixelTraits_def framebuffer_WritePixel_def uniform_def)

section \<open>Filling a span\<close>

text \<open>
  Claim C3, as the code has it.  On the framebuffer, for a Direct-Write engine
  (any operation) and for a Conditional-Write engine (any predicate),
  \<^verbatim>\<open>FillPixels(p, n, c)\<close> applied twice in a row with identical arguments leaves
  the same pixels as applying it once, and what is committed is a function of the
  colour alone: Direct-Write leaves \<open>Operation c\<close> at each of the \<open>n\<close>
  positions, Conditional-Write leaves the colour itself where the predicate holds
  of it and the old pixel where it does not.  A Blend-Write engine leaves
  \<open>Blend d c\<close> at a position that held \<open>d\<close>, which depends on the prior
  contents.
\<close>

theorem FillPixels_idempotent_without_blend:
  assumes "on_framebuffer PT"
  shows
   "pixels (FillPixels PT (UnaryWritePixel_WritePixel PT Operation) p n c
              (FillPixels PT (UnaryWritePixel_WritePixel PT Operation) p n c s))
      = pixels (FillPixels PT (UnaryWritePixel_WritePixel PT Operation) p n c s)
    \<and> (\<forall>i<n. pixels (FillPixels PT (UnaryWritePixel_WritePixel PT Operation) p n c s) (p + i)
              = Operation c)
    \<and> pixels (FillPixels PT (ConditionalWritePixel_WritePixel PT Check) p n k
              (FillPixels PT (ConditionalWritePixel_WritePixel PT Check) p n k s))
      = pixels (FillPixels PT (ConditionalWritePixel_WritePixel PT Check) p n k s)
    \<and> (\<forall>i<n. pixels (FillPixels PT (ConditionalWritePixel_WritePixel PT Check) p n k s) (p + i)
              = (if Check k then k else pixels s (p + i)))
    \<and> (\<forall>i<n. pixels (FillPixels PT (BinaryWritePixel_WritePixel PT Blend) p n c s) (p + i)
              = Blend (pixels s (p + i)) c)"
proof -
  have u2: "pixels (FillPixels PT (UnaryWritePixel_WritePixel PT Operation) p n c
              (FillPixels PT (UnaryWritePixel_WritePixel PT Operation) p n c s))
      = pixels (FillPixels PT (UnaryWritePixel_WritePixel PT Operation) p n c s)"
    by (auto simp: FillPixels_Unary [OF assms] fun_eq_iff)
  have u1: "\<forall>i<n. pixels (FillPixels PT (UnaryWritePixel_WritePixel PT Operation) p n c s) (p + i)
              = Operation c"
    by (simp add: FillPixels_Unary [OF assms])
  have c2: "pixels (FillPixels PT (ConditionalWritePixel_WritePixel PT Check) p n k
              (FillPixels PT (ConditionalWritePixel_WritePixel PT Check) p n k s))
      = pixels (FillPixels PT (ConditionalWritePixel_WritePixel PT Check) p n k s)"
    by (auto simp: FillPixels_Conditional [OF assms] fun_eq_iff)
  have c1: "\<forall>i<n. pixels (FillPixels PT (ConditionalWritePixel_WritePixel PT Check) p n k s) (p + i)
              = (if Check k then k else pixels s (p + i))"
    by (simp add: FillPixels_Conditional [OF assms])
  have b1: "\<forall>i<n. pixels (FillPixels PT (BinaryWritePixel_WritePixel PT Blend) p n c s) (p + i)
              = Blend (pixels s (p + i)) c"
    by (simp add: FillPixels_Binary [OF assms])
  show ?thesis
    by (intro conjI u2 u1 c2 c1 b1)
qed

text \<open>
  On a greyscale memory holding 5 everywhere, filling two pixels from location 4
  with colour 10: Bit-Not leaves 245 at location 5, the colour key 10 leaves the
  5, and the alpha blend with alpha 128 leaves 7.
\<close>

theorem FillPixels_idempotent_without_blend_witness:
  "on_framebuffer GreyscalePixelTraits \<and> (1 :: nat) < 2
   \<and> pixels (FillPixels GreyscalePixelTraits (BitNotPixelOperations GreyscalePixelTraits) 4 2 10
              (uniform 5)) 5 = 245
   \<and> pixels (FillPixels GreyscalePixelTraits (TransparentPixelOperations GreyscalePixelTraits 10) 4 2 10
              (uniform 5)) 5 = 5
   \<and> pixels (FillPixels GreyscalePixelTraits (AlphaPixelOperations GreyscalePixelTraits 128) 4 2 10
              (uniform 5)) 5 = 7"
proof -
  have h: "on_framebuffer GreyscalePixelTraits"
    by (simp add: on_framebuffer_def GreyscalePixelTraits_def)
  have i: "(1 :: nat) < 2" by simp
  note t = FillPixels_idempotent_without_blend [OF h,
      of "PixelIntegerAdapter GreyscalePixelTraits PixelBitNot" 4 2 10 "uniform 5"
         "ColorKey 10" 10 "PixelPerChannelAdapter2 GreyscalePixelTraits (PixelAlphaOperation 128)"]
  have blend: "PixelAlphaOperation 128 5 10 = 7"
    by (simp only: word_uint_eq_iff uint_PixelAlphaOperation) simp
  from t i have "pixels (FillPixels GreyscalePixelTraits (BitNotPixelOperations GreyscalePixelTraits) 4 2 10
              (uniform 5)) (4 + 1) = PixelIntegerAdapter GreyscalePixelTraits PixelBitNot 10"
    unfolding BitNotPixelOperations_def by blast
  then have a: "pixels (FillPixels GreyscalePixelTraits (BitNotPixelOperations GreyscalePixelTraits) 4 2 10
              (uniform 5)) 5 = 245"
    by (simp add: PixelIntegerAdapter_def PixelBitNot_def GreyscalePixelTraits_def)
  from t i have "pixels (FillPixels GreyscalePixelTraits (TransparentPixelOperations GreyscalePixelTraits 10) 4 2 10
              (uniform 5)) (4 + 1) = (if ColorKey 10 (10 :: Luminosity8) then 10 else pixels (uniform 5) (4 + 1))"
    unfolding TransparentPixelOperations_def by blast
  then have b: "pixels (FillPixels GreyscalePixelTraits (TransparentPixelOperations GreyscalePixelTraits 10) 4 2 10
              (uniform 5)) 5 = 5"
    by (simp add: ColorKey_def uniform_def)
  from t i have "pixels (FillPixels GreyscalePixelTraits (AlphaPixelOperations GreyscalePixelTraits 128) 4 2 10
              (uniform 5)) (4 + 1)
      = PixelPerChannelAdapter2 GreyscalePixelTraits (PixelAlphaOperation 128) (pixels (uniform 5) (4 + 1)) 10"
    unfolding AlphaPixelOperations_def by blast
  then have c: "pixels (FillPixels GreyscalePixelTraits (AlphaPixelOperations GreyscalePixelTraits 128) 4 2 10
              (uniform 5)) 5 = 7"
    by (simp add: PixelPerChannelAdapter2_def GreyscalePixelTraits_def uniform_def blend)
  show ?thesis
    using h i a b c by simp
qed

text \<open>
  The claim C3 as stated fails for a Blend-Write engine.  Filling one pixel with
  colour 100 through the alpha blend with alpha 128: on a pixel holding 0 one fill
  leaves 50 and a second fill leaves 75, and on a pixel holding 200 one fill
  leaves 150.
\<close>

theorem FillPixels_blend_not_idempotent:
  "pixels (FillPixels GreyscalePixelTraits (AlphaPixelOperations GreyscalePixelTraits 128) 0 1 100
             (uniform 0)) 0 = 50
   \<and> pixels (FillPixels GreyscalePixelTraits (AlphaPixelOperations GreyscalePixelTraits 128) 0 1 100
             (FillPixels GreyscalePixelTraits (AlphaPixelOperations GreyscalePixelTraits 128) 0 1 100
                (uniform 0))) 0 = 75
   \<and> pixels (FillPixels GreyscalePixelTraits (AlphaPixelOperations GreyscalePixelTraits 128) 0 1 100
             (uniform 200)) 0 = 150"
proof -
  have b: "PixelAlphaOperation 128 0 100 = 50" "PixelAlphaOperation 128 50 100 = 75"
    "PixelAlphaOperation 128 200 100 = 150"
    by (simp_all only: word_uint_eq_iff uint_PixelAlphaOperation) simp_all
  have f: "pixels (FillPixels GreyscalePixelTraits (AlphaPixelOperations GreyscalePixelTraits 128)
                     0 (Suc 0) 100 s) 0
           = PixelAlphaOperation 128 (pixels s 0) 100" for s
    unfolding AlphaPixelOperations_def
    by (subst FillPixels_Binary [OF on_framebuffer_Greyscale])
       (simp add: PixelPerChannelAdapter2_def GreyscalePixelTraits_def)
  show ?thesis
    by (simp add: f b uniform_def)
qed

section \<open>Copying a span\<close>

text \<open>
  Claim C4, as the code has it.  For every \<open>n\<close>, \<^verbatim>\<open>CopyPixels(dest, src, n)\<close>
  runs the loop body at the indices 0, 1, ..., n - 1 in this order: each
  iteration reads source pixel \<open>i\<close> and hands it to the write strategy at
  destination position \<open>i\<close>; for \<open>n = 0\<close> the state is returned as it was.
  A copy of \<open>n\<close> pixels continues the copy of any \<open>k \<le> n\<close> pixels, so the
  pixel read at iteration \<open>k\<close> is \<open>CopyPixels_source\<close> at \<open>k\<close>.
  On the framebuffer, with a source descriptor of any colour type and rows that
  may overlap, the copy reads exactly the \<open>n\<close> source pixels in increasing order.
  Direct-Write and Blend-Write write exactly the \<open>n\<close> destination pixels in
  increasing order, Blend-Write reading each destination pixel just before it
  writes it, and position \<open>i\<close> of the destination receives the operation applied
  to source pixel \<open>i\<close> as the loop read it (for Blend-Write together with the
  old destination pixel).  Conditional-Write writes exactly the positions whose
  source pixel, as the loop read it, satisfies the predicate; such a position
  receives that pixel and every other position is left as it was.
\<close>

theorem CopyPixels_in_order:
  "CopyPixels PT SPT W p src n s = fold (CopyPixels_step PT SPT W p src) [0..<n] s
   \<and> CopyPixels PT SPT W p src 0 s = s
   \<and> (k \<le> n \<longrightarrow>
        CopyPixels PT SPT W p src n s
          = fold (CopyPixels_step PT SPT W p src) [k..<n] (CopyPixels PT SPT W p src k s))
   \<and> CopyPixels_step PT SPT W p src k (CopyPixels PT SPT W p src k s)
       = PerPixelOperations_WritePixel W (Next PT p k) (CopyPixels_source PT SPT W p src k s)
           (snd (ReadPixel SPT (Next SPT src k) (CopyPixels PT SPT W p src k s)))
   \<and> (on_framebuffer DT \<and> source_on_framebuffer view ST \<longrightarrow>
        trace (CopyPixels DT ST (UnaryWritePixel_WritePixel DT Operation) q r n t)
          = trace t @ concat (map (\<lambda>i. [ReadAt (r + i), WriteAt (q + i)]) [0..<n])
      \<and> fetched (trace (CopyPixels DT ST (UnaryWritePixel_WritePixel DT Operation) q r n t))
          = fetched (trace t) @ map (\<lambda>i. r + i) [0..<n]
      \<and> written (trace (CopyPixels DT ST (UnaryWritePixel_WritePixel DT Operation) q r n t))
          = written (trace t) @ map (\<lambda>i. q + i) [0..<n]
      \<and> (\<forall>i<n. pixels (CopyPixels DT ST (UnaryWritePixel_WritePixel DT Operation) q r n t) (q + i)
               = Operation (CopyPixels_source DT ST (UnaryWritePixel_WritePixel DT Operation) q r i t))
      \<and> trace (CopyPixels DT ST (BinaryWritePixel_WritePixel DT Blend) q r n t)
          = trace t @ concat (map (\<lambda>i. [ReadAt (r + i), ReadAt (q + i), WriteAt (q + i)]) [0..<n])
      \<and> fetched (trace (CopyPixels DT ST (BinaryWritePixel_WritePixel DT Blend) q r n t))
          = fetched (trace t) @ concat (map (\<lambda>i. [r + i, q + i]) [0..<n])
      \<and> written (trace (CopyPixels DT ST (BinaryWritePixel_WritePixel DT Blend) q r n t))
          = written (trace t) @ map (\<lambda>i. q + i) [0..<n]
      \<and> (\<forall>i<n. pixels (CopyPixels DT ST (BinaryWritePixel_WritePixel DT Blend) q r n t) (q + i)
               = Blend (pixels t (q + i))
                   (CopyPixels_source DT ST (BinaryWritePixel_WritePixel DT Blend) q r i t)))
   \<and> (on_framebuffer CT \<and> source_on_framebuffer cview CS \<longrightarrow>
        trace (CopyPixels CT CS (ConditionalWritePixel_WritePixel CT Check) a b n u)
          = trace u @ concat (map (\<lambda>i. ReadAt (b + i) #
               (if Check (CopyPixels_source CT CS (ConditionalWritePixel_WritePixel CT Check) a b i u)
                then [WriteAt (a + i)] else [])) [0..<n])
      \<and> fetched (trace (CopyPixels CT CS (ConditionalWritePixel_WritePixel CT Check) a b n u))
          = fetched (trace u) @ map (\<lambda>i. b + i) [0..<n]
      \<and> written (trace (CopyPixels CT CS (ConditionalWritePixel_WritePixel CT Check) a b n u))
          = written (trace u) @ map (\<lambda>i. a + i)
              (filter (\<lambda>i. Check (CopyPixels_source CT CS
                                     (ConditionalWritePixel_WritePixel CT Check) a b i u)) [0..<n])
      \<and> (\<forall>i<n. pixels (CopyPixels CT CS (ConditionalWritePixel_WritePixel CT Check) a b n u) (a + i)
               = (if Check (CopyPixels_source CT CS (ConditionalWritePixel_WritePixel CT Check) a b i u)
                  then CopyPixels_source CT CS (ConditionalWritePixel_WritePixel CT Check) a b i u
                  else pixels u (a + i))))"
proof -
  have generic: "CopyPixels PT SPT W p src n s = fold (CopyPixels_step PT SPT W p src) [0..<n] s"
    by (rule CopyPixels_fold)
  have empty: "CopyPixels PT SPT W p src 0 s = s"
    by (simp add: CopyPixels_fold)
  have resume: "CopyPixels PT SPT W p src n s
          = fold (CopyPixels_step PT SPT W p src) [k..<n] (CopyPixels PT SPT W p src k s)"
    if "k \<le> n"
    by (rule CopyPixels_resume [OF that])
  have handed: "CopyPixels_step PT SPT W p src k (CopyPixels PT SPT W p src k s)
       = PerPixelOperations_WritePixel W (Next PT p k) (CopyPixels_source PT SPT W p src k s)
           (snd (ReadPixel SPT (Next SPT src k) (CopyPixels PT SPT W p src k s)))"
    by (rule CopyPixels_step_source)
  have direct: "trace (CopyPixels DT ST (UnaryWritePixel_WritePixel DT Operation) q r n t)
          = trace t @ concat (map (\<lambda>i. [ReadAt (r + i), WriteAt (q + i)]) [0..<n])
      \<and> fetched (trace (CopyPixels DT ST (UnaryWritePixel_WritePixel DT Operation) q r n t))
          = fetched (trace t) @ map (\<lambda>i. r + i) [0..<n]
      \<and> written (trace (CopyPixels DT ST (UnaryWritePixel_WritePixel DT Operation) q r n t))
          = written (trace t) @ map (\<lambda>i. q + i) [0..<n]
      \<and> (\<forall>i<n. pixels (CopyPixels DT ST (UnaryWritePixel_WritePixel DT Operation) q r n t) (q + i)
               = Operation (CopyPixels_source DT ST (UnaryWritePixel_WritePixel DT Operation) q r i t))"
    if "on_framebuffer DT" "source_on_framebuffer view ST"
    by (subst (1 2 3 4) CopyPixels_Unary_read [OF that])
       (simp add: written_concat fetched_concat concat_singletons)
  have blend: "trace (CopyPixels DT ST (BinaryWritePixel_WritePixel DT Blend) q r n t)
          = trace t @ concat (map (\<lambda>i. [ReadAt (r + i), ReadAt (q + i), WriteAt (q + i)]) [0..<n])
      \<and> fetched (trace (CopyPixels DT ST (BinaryWritePixel_WritePixel DT Blend) q r n t))
          = fetched (trace t) @ concat (map (\<lambda>i. [r + i, q + i]) [0..<n])
      \<and> written (trace (CopyPixels DT ST (BinaryWritePixel_WritePixel DT Blend) q r n t))
          = written (trace t) @ map (\<lambda>i. q + i) [0..<n]
      \<and> (\<forall>i<n. pixels (CopyPixels DT ST (BinaryWritePixel_WritePixel DT Blend) q r n t) (q + i)
               = Blend (pixels t (q + i))
                   (CopyPixels_source DT ST (BinaryWritePixel_WritePixel DT Blend) q r i t))"
    if "on_framebuffer DT" "source_on_framebuffer view ST"
    by (subst (1 2 3 4) CopyPixels_Binary_read [OF that])
       (simp add: written_concat concat_singletons fetched_pairs)
  have gated: "trace (CopyPixels CT CS (ConditionalWritePixel_WritePixel CT Check) a b n u)
          = trace u @ concat (map (\<lambda>i. ReadAt (b + i) #
               (if Check (CopyPixels_source CT CS (ConditionalWritePixel_WritePixel CT Check) a b i u)
                then [WriteAt (a + i)] else [])) [0..<n])
      \<and> fetched (trace (CopyPixels CT CS (ConditionalWritePixel_WritePixel CT Check) a b n u))
          = fetched (trace u) @ map (\<lambda>i. b + i) [0..<n]
      \<and> written (trace (CopyPixels CT CS (ConditionalWritePixel_WritePixel CT Check) a b n u))
          = written (trace u) @ map (\<lambda>i. a + i)
              (filter (\<lambda>i. Check (CopyPixels_source CT CS
                                     (ConditionalWritePixel_WritePixel CT Check) a b i u)) [0..<n])
      \<and> (\<forall>i<n. pixels (CopyPixels CT CS (ConditionalWritePixel_WritePixel CT Check) a b n u) (a + i)
               = (if Check (CopyPixels_source CT CS (ConditionalWritePixel_WritePixel CT Check) a b i u)
                  then CopyPixels_source CT CS (ConditionalWritePixel_WritePixel CT Check) a b i u
                  else pixels u (a + i)))"
    if "on_framebuffer CT" "source_on_framebuffer cview CS"
    by (subst (1 2 3 4) CopyPixels_Conditional_read [OF that])
       (simp add: written_conditional fetched_conditional)
  show ?thesis
    using generic empty resume handed direct blend gated by blast
qed

text \<open>
  Copying the first two pixels of scenario A to locations 4 and 5, Bit-Not reads
  and writes alternately and leaves 55, the complement of 200, at location 5; the
  copy of two pixels is the second iteration run on the copy of one.
  Copying the overlapping rows under the colour key 10, the second read sees the
  200 the first iteration wrote, so both destination pixels are written.
\<close>

theorem CopyPixels_in_order_witness:
  "on_framebuffer GreyscalePixelTraits \<and> source_on_framebuffer id GreyscalePixelTraits
   \<and> (1 :: nat) < 2 \<and> (1 :: nat) \<le> 2
   \<and> CopyPixels GreyscalePixelTraits GreyscalePixelTraits
        (BitNotPixelOperations GreyscalePixelTraits) 4 0 2 scenario_A
       = fold (CopyPixels_step GreyscalePixelTraits GreyscalePixelTraits
                 (BitNotPixelOperations GreyscalePixelTraits) 4 0) [1..<2]
           (CopyPixels GreyscalePixelTraits GreyscalePixelTraits
              (BitNotPixelOperations GreyscalePixelTraits) 4 0 1 scenario_A)
   \<and> trace (CopyPixels GreyscalePixelTraits GreyscalePixelTraits
               (BitNotPixelOperations GreyscalePixelTraits) 4 0 2 scenario_A)
       = [ReadAt 0, WriteAt 4, ReadAt 1, WriteAt 5]
   \<and> pixels (CopyPixels GreyscalePixelTraits GreyscalePixelTraits
               (BitNotPixelOperations GreyscalePixelTraits) 4 0 2 scenario_A) 5 = 55
   \<and> trace (CopyPixels GreyscalePixelTraits GreyscalePixelTraits
               (TransparentPixelOperations GreyscalePixelTraits 10) 3 2 2 overlapping_rows)
       = [ReadAt 2, WriteAt 3, ReadAt 3, WriteAt 4]
   \<and> written (trace (CopyPixels GreyscalePixelTraits GreyscalePixelTraits
               (TransparentPixelOperations GreyscalePixelTraits 10) 3 2 2 overlapping_rows))
       = [3, 4]
   \<and> pixels (CopyPixels GreyscalePixelTraits GreyscalePixelTraits
               (TransparentPixelOperations GreyscalePixelTraits 10) 3 2 2 overlapping_rows) 4 = 200"
proof -
  let ?G = GreyscalePixelTraits
  let ?N = "UnaryWritePixel_WritePixel ?G (PixelIntegerAdapter ?G PixelBitNot)"
  let ?K = "ConditionalWritePixel_WritePixel ?G (ColorKey 10)"
  have h: "on_framebuffer ?G"
    by (simp add: on_framebuffer_def GreyscalePixelTraits_def)
  have v: "source_on_framebuffer id ?G"
    by (simp add: source_on_framebuffer_def GreyscalePixelTraits_def fun_eq_iff
        framebuffer_ReadPixel_def framebuffer_ReadPixel_as_def)
  have i: "(1 :: nat) < 2" and k: "(1 :: nat) \<le> 2" by simp_all
  note t = CopyPixels_in_order [where DT = ?G and ST = ?G and view = id
      and Operation = "PixelIntegerAdapter ?G PixelBitNot" and q = 4 and r = 0 and n = 2
      and t = scenario_A and CT = ?G and CS = ?G and cview = id and Check = "ColorKey 10"
      and a = 3 and b = 2 and u = overlapping_rows
      and PT = ?G and SPT = ?G and W = ?N and p = 4 and src = 0 and s = scenario_A
      and Blend = "\<lambda>a b. a" and k = 1]
  from t h v have "trace (CopyPixels ?G ?G ?N 4 0 2 scenario_A)
       = trace scenario_A @ concat (map (\<lambda>i. [ReadAt (0 + i), WriteAt (4 + i)]) [0..<2])"
    by blast
  then have tr: "trace (CopyPixels ?G ?G (BitNotPixelOperations ?G) 4 0 2 scenario_A)
       = [ReadAt 0, WriteAt 4, ReadAt 1, WriteAt 5]"
    by (simp add: BitNotPixelOperations_def range2 scenario_A_def)
  from t h v i have "pixels (CopyPixels ?G ?G ?N 4 0 2 scenario_A) (4 + 1)
       = PixelIntegerAdapter ?G PixelBitNot (CopyPixels_source ?G ?G ?N 4 0 1 scenario_A)"
    by blast
  then have px: "pixels (CopyPixels ?G ?G (BitNotPixelOperations ?G) 4 0 2 scenario_A) 5 = 55"
    by (simp add: BitNotPixelOperations_def scenario_A_seen Greyscale_BitNot_200)
  from t h v have "trace (CopyPixels ?G ?G ?K 3 2 2 overlapping_rows)
       = trace overlapping_rows @ concat (map (\<lambda>i. ReadAt (2 + i) #
           (if ColorKey 10 (CopyPixels_source ?G ?G ?K 3 2 i overlapping_rows)
            then [WriteAt (3 + i)] else [])) [0..<2])"
    by blast
  then have ktr: "trace (CopyPixels ?G ?G (TransparentPixelOperations ?G 10) 3 2 2 overlapping_rows)
       = [ReadAt 2, WriteAt 3, ReadAt 3, WriteAt 4]"
    by (simp add: TransparentPixelOperations_def range2 overlapping_rows_seen ColorKey_def)
  from t h v i have "pixels (CopyPixels ?G ?G ?K 3 2 2 overlapping_rows) (3 + 1)
       = (if ColorKey 10 (CopyPixels_source ?G ?G ?K 3 2 1 overlapping_rows)
          then CopyPixels_source ?G ?G ?K 3 2 1 overlapping_rows
          else pixels overlapping_rows (3 + 1))"
    by blast
  then have kpx: "pixels (CopyPixels ?G ?G (TransparentPixelOperations ?G 10) 3 2 2 overlapping_rows) 4
       = 200"
    by (simp add: TransparentPixelOperations_def overlapping_rows_seen ColorKey_def)
  from t k have "CopyPixels ?G ?G ?N 4 0 2 scenario_A
       = fold (CopyPixels_step ?G ?G ?N 4 0) [1..<2] (CopyPixels ?G ?G ?N 4 0 1 scenario_A)"
    by blast
  then have rs: "CopyPixels ?G ?G (BitNotPixelOperations ?G) 4 0 2 scenario_A
       = fold (CopyPixels_step ?G ?G (BitNotPixelOperations ?G) 4 0) [1..<2]
           (CopyPixels ?G ?G (BitNotPixelOperations ?G) 4 0 1 scenario_A)"
    by (simp only: BitNotPixelOperations_def)
  have kw: "written (trace (CopyPixels ?G ?G (TransparentPixelOperations ?G 10) 3 2 2 overlapping_rows))
       = [3, 4]"
    by (simp add: ktr)
  from h v i k rs tr px ktr kw kpx show ?thesis by (intro conjI)
qed

text \<open>
  The claim C4 as stated fails for a Conditional-Write engine: copying the four
  pixels of scenario A under the colour key 10 writes two destination pixels, at
  locations 5 and 7, not four.
\<close>

theorem CopyPixels_conditional_writes_fewer:
  "written (trace (CopyPixels GreyscalePixelTraits GreyscalePixelTraits
                     (TransparentPixelOperations GreyscalePixelTraits 10) 4 0 4 scenario_A)) = [5, 7]
   \<and> length (written (trace (CopyPixels GreyscalePixelTraits GreyscalePixelTraits
                     (TransparentPixelOperations GreyscalePixelTraits 10) 4 0 4 scenario_A))) \<noteq> 4"
  by (simp add: scenarioA_copy)

section \<open>Opaque text\<close>

text \<open>
  Claim C7.  For every source pixel \<open>x\<close>, Opaque-Text with \<open>background_color\<close>
  and \<open>text_color\<close> returns \<open>background_color\<close> when the source format's
  predicate classifies \<open>x\<close> as black and \<open>text_color\<close> otherwise; the result is
  always one of the two.
\<close>

theorem PixelOpaqueText_two_outcomes:
  "(IsBlack SPT x \<longrightarrow> PixelOpaqueText SPT background_color text_color x = background_color)
   \<and> (\<not> IsBlack SPT x \<longrightarrow> PixelOpaqueText SPT background_color text_color x = text_color)
   \<and> (PixelOpaqueText SPT background_color text_color x = background_color
      \<or> PixelOpaqueText SPT background_color text_color x = text_color)"
  by (simp add: PixelOpaqueText_def)

text \<open>
  With the greyscale source format, luminosity 0 is black and maps to the
  background, luminosity 7 is not and maps to the text colour.
\<close>

theorem PixelOpaqueText_two_outcomes_witness:
  "IsBlack GreyscalePixelTraits 0
   \<and> PixelOpaqueText GreyscalePixelTraits (1 :: Luminosity8) 2 0 = 1
   \<and> \<not> IsBlack GreyscalePixelTraits 7
   \<and> PixelOpaqueText GreyscalePixelTraits (1 :: Luminosity8) 2 7 = 2"
proof -
  have b: "IsBlack GreyscalePixelTraits 0" and w: "\<not> IsBlack GreyscalePixelTraits 7"
    by (simp_all add: GreyscalePixelTraits_def)
  from b PixelOpaqueText_two_outcomes [of GreyscalePixelTraits 0 "1 :: Luminosity8" 2]
  have "PixelOpaqueText GreyscalePixelTraits (1 :: Luminosity8) 2 0 = 1" by blast
  moreover from w PixelOpaqueText_two_outcomes [of GreyscalePixelTraits 7 "1 :: Luminosity8" 2]
  have "PixelOpaqueText GreyscalePixelTraits (1 :: Luminosity8) 2 7 = 2" by blast
  ultimately show ?thesis using b w by blast
qed

section \<open>Transparent invert\<close>

text \<open>
  Claim C8.  For every source colour \<open>c\<close> and key colour \<open>key\<close>,
  \<^verbatim>\<open>TransparentInvertPixelOperations::WritePixel\<close> writes the Bit-Not of \<open>c\<close> (the
  format's integer transform applied to the complement) to the destination pixel
  when \<open>c\<close> differs from \<open>key\<close>, and returns the state untouched when \<open>c\<close>
  equals \<open>key\<close>.  On the greyscale framebuffer the value written is the bitwise
  complement of the luminosity.
\<close>

theorem TransparentInvert_WritePixel:
  "(c \<noteq> key \<longrightarrow> TransparentInvertPixelOperations_WritePixel PT key p c s
                    = WritePixel PT p (TransformInteger PT c PixelBitNot) s)
   \<and> (c = key \<longrightarrow> TransparentInvertPixelOperations_WritePixel PT key p c s = s)
   \<and> (l \<noteq> k \<longrightarrow> TransparentInvertPixelOperations_WritePixel GreyscalePixelTraits k q l t
                    = t\<lparr>pixels := (pixels t)(q := NOT l), trace := trace t @ [WriteAt q]\<rparr>)
   \<and> (l = k \<longrightarrow> TransparentInvertPixelOperations_WritePixel GreyscalePixelTraits k q l t = t)"
proof -
  have "TransparentInvertPixelOperations_WritePixel PT key p c s =
        (if c \<noteq> key then WritePixel PT p (TransformInteger PT c PixelBitNot) s else s)"
    by (simp add: TransparentInvertPixelOperations_WritePixel_def PixelIntegerAdapter_def)
  moreover have "TransparentInvertPixelOperations_WritePixel GreyscalePixelTraits k q l t =
        (if l \<noteq> k then t\<lparr>pixels := (pixels t)(q := NOT l), trace := trace t @ [WriteAt q]\<rparr>
         else t)"
    by (simp add: TransparentInvertPixelOperations_WritePixel_def PixelIntegerAdapter_def
        PixelBitNot_def GreyscalePixelTraits_def framebuffer_WritePixel_def)
  ultimately show ?thesis by auto
qed

text \<open>
  On the greyscale framebuffer with key 10: colour 200 is written as 55 (its
  complement), colour 10 changes nothing.
\<close>

theorem TransparentInvert_WritePixel_witness:
  "(200 :: Luminosity8) \<noteq> 10
   \<and> TransparentInvertPixelOperations_WritePixel GreyscalePixelTraits 10 5 200 (uniform 5)
       = \<lparr>pixels = (\<lambda>a. 5)(5 := 55), trace = [WriteAt 5]\<rparr>
   \<and> TransparentInvertPixelOperations_WritePixel GreyscalePixelTraits 10 4 10 (uniform 5)
       = uniform 5"
proof -
  have n: "(200 :: Luminosity8) \<noteq> 10" and c: "NOT (200 :: Luminosity8) = 55"
    by simp_all
  from n TransparentInvert_WritePixel
      [of 200 10 GreyscalePixelTraits 5 "uniform 5" 200 10 5 "uniform 5"]
  have "TransparentInvertPixelOperations_WritePixel GreyscalePixelTraits 10 5 200 (uniform 5)
        = (uniform 5)\<lparr>pixels := (pixels (uniform 5))(5 := NOT 200),
                         trace := trace (uniform 5) @ [WriteAt 5]\<rparr>"
    by blast
  then have a: "TransparentInvertPixelOperations_WritePixel GreyscalePixelTraits 10 5 200 (uniform 5)
        = \<lparr>pixels = (\<lambda>a. 5)(5 := 55), trace = [WriteAt 5]\<rparr>"
    by (simp only: c) (simp add: uniform_def)
  from TransparentInvert_WritePixel
      [of 10 10 GreyscalePixelTraits 4 "uniform 5" 10 10 4 "uniform 5"]
  have b: "TransparentInvertPixelOperations_WritePixel GreyscalePixelTraits 10 4 10 (uniform 5)
        = uniform 5"
    by blast
  from n a b show ?thesis by blast
qed

section \<open>Opaque alpha\<close>

text \<open>
  Claim C9.  The pixel that Opaque-Alpha with endpoint colours \<open>colorA\<close> and
  \<open>colorB\<close> commits depends only on the coverage sample and the two endpoints:
  written through the engine to the same location of two memories \<open>s1\<close> and
  \<open>s2\<close> with any prior contents, the same sample leaves the same pixel value.
  That value is the format's channel transform of the two endpoints under a
  function that maps channels \<open>x\<close>, \<open>y\<close> to \<open>x + (((y - x) * sample) >> 8)\<close>; on
  the greyscale format it is that value for the single channel.
\<close>

theorem OpaqueAlpha_ignores_destination:
  assumes "on_framebuffer PT"
  shows "pixels (PerPixelOperations_WritePixel (OpaqueAlphaPixelOperations PT colorA colorB) p sample s1) p
         = pixels (PerPixelOperations_WritePixel (OpaqueAlphaPixelOperations PT colorA colorB) p sample s2) p
   \<and> (\<exists>f. pixels (PerPixelOperations_WritePixel (OpaqueAlphaPixelOperations PT colorA colorB) p sample s1) p
            = TransformChannels2 PT colorA colorB f
          \<and> (\<forall>x y. uint (f x y) = uint x + drop_bit 8 ((uint y - uint x) * uint sample)))
   \<and> uint (pixels (PerPixelOperations_WritePixel (OpaqueAlphaPixelOperations GreyscalePixelTraits a b)
                     q sample t) q)
       = uint a + drop_bit 8 ((uint b - uint a) * uint sample)"
proof -
  let ?f = "\<lambda>x y. ucast (blend_sum (ucast sample) x y) :: uint8_t"
  have w: "pixels (PerPixelOperations_WritePixel (OpaqueAlphaPixelOperations PT colorA colorB) p sample s) p
           = TransformChannels2 PT colorA colorB ?f" for s
    by (simp add: PerPixelOperations_WritePixel_def OpaqueAlphaPixelOperations_def
        UnaryWritePixel_on_framebuffer [OF assms] PixelOpaqueAlpha_def)
  have f: "\<forall>x y. uint (?f x y) = uint x + drop_bit 8 ((uint y - uint x) * uint sample)"
    by (simp add: uint_narrow_blend_sum drop_bit_eq_div)
  have "pixels (PerPixelOperations_WritePixel
                   (OpaqueAlphaPixelOperations GreyscalePixelTraits a b) q sample t) q
           = TransformChannels2 GreyscalePixelTraits a b ?f"
    by (simp add: PerPixelOperations_WritePixel_def OpaqueAlphaPixelOperations_def
        UnaryWritePixel_on_framebuffer [OF on_framebuffer_Greyscale] PixelOpaqueAlpha_def)
  also have "\<dots> = ?f a b"
    by (simp add: GreyscalePixelTraits_def)
  finally have g: "uint (pixels (PerPixelOperations_WritePixel
                   (OpaqueAlphaPixelOperations GreyscalePixelTraits a b) q sample t) q)
           = uint a + drop_bit 8 ((uint b - uint a) * uint sample)"
    by (simp add: uint_narrow_blend_sum drop_bit_eq_div)
  have eq: "pixels (PerPixelOperations_WritePixel (OpaqueAlphaPixelOperations PT colorA colorB) p sample s1) p
         = pixels (PerPixelOperations_WritePixel (OpaqueAlphaPixelOperations PT colorA colorB) p sample s2) p"
    by (simp only: w)
  have e: "\<exists>f. pixels (PerPixelOperations_WritePixel (OpaqueAlphaPixelOperations PT colorA colorB) p sample s1) p
            = TransformChannels2 PT colorA colorB f
          \<and> (\<forall>x y. uint (f x y) = uint x + drop_bit 8 ((uint y - uint x) * uint sample))"
    using w [of s1] f by (intro exI [of _ ?f] conjI)
  show ?thesis
    by (intro conjI eq e g)
qed

text \<open>
  On the greyscale framebuffer, endpoints 0 and 100 with sample 128 leave 50 at
  the location, whether the memory held 7 or 9 before.
\<close>

theorem OpaqueAlpha_ignores_destination_witness:
  "on_framebuffer GreyscalePixelTraits
   \<and> pixels (PerPixelOperations_WritePixel (OpaqueAlphaPixelOperations GreyscalePixelTraits 0 100)
               3 128 (uniform 7)) 3 = 50
   \<and> pixels (PerPixelOperations_WritePixel (OpaqueAlphaPixelOperations GreyscalePixelTraits 0 100)
               3 128 (uniform 9)) 3 = 50"
proof -
  have h: "on_framebuffer GreyscalePixelTraits"
    by (simp add: on_framebuffer_def GreyscalePixelTraits_def)
  note t = OpaqueAlpha_ignores_destination
    [OF h, of 0 100 3 128 "uniform 7" "uniform 9" 0 100 3 "uniform 7"]
  from t [THEN conjunct2, THEN conjunct2]
  have "uint (pixels (PerPixelOperations_WritePixel
      (OpaqueAlphaPixelOperations GreyscalePixelTraits 0 100) 3 128 (uniform 7)) 3) = uint (50 :: uint8_t)"
    by simp
  then have a: "pixels (PerPixelOperations_WritePixel
      (OpaqueAlphaPixelOperations GreyscalePixelTraits 0 100) 3 128 (uniform 7)) 3 = 50"
    by (simp only: word_uint_eq_iff)
  from t [THEN conjunct1] have "pixels (PerPixelOperations_WritePixel
      (OpaqueAlphaPixelOperations GreyscalePixelTraits 0 100) 3 128 (uniform 7)) 3
    = pixels (PerPixelOperations_WritePixel
      (OpaqueAlphaPixelOperations GreyscalePixelTraits 0 100) 3 128 (uniform 9)) 3"
    .
  with a h show ?thesis by simp
qed

section \<open>The XCOM760 frequency commands\<close>

text \<open>
  Claim C10.  For every frequency, \<^verbatim>\<open>PutStandbyFrequency\<close> formats its command
  into the local buffer only: it returns true and the port is as it was.
  \<^verbatim>\<open>PutActiveFrequency\<close> returns true after writing its formatted command to the
  port, so the port has changed.  For 123450 kHz the active command is
  \<^verbatim>\<open>$TXAF=123.450\<close> followed by carriage return and line feed, and the standby
  call on an unused port leaves it unused.
\<close>

theorem PutStandbyFrequency_writes_nothing:
  "PutStandbyFrequency frequency port = (True, port)
   \<and> PutActiveFrequency frequency port =
       (True, port @ [sprintf_frequency ''$TXAF='' (frequency div 1000) (frequency mod 1000)])
   \<and> snd (PutActiveFrequency frequency port) \<noteq> port
   \<and> PutActiveFrequency 123450 [] = (True, [''$TXAF=123.450'' @ [CHR 0x0D, CHR 0x0A]])
   \<and> PutStandbyFrequency 123450 [] = (True, [])"
  by (simp add: PutStandbyFrequency_def PutActiveFrequency_def Port_Write_def
      sprintf_frequency_def print_unsigned.simps zero_pad_def digit_def)

end
